theory Spec2Isabelle
  imports Complex_Main
begin

section \<open>Data model\<close>

text \<open>
  Frame indices are Python integers (unbounded), hence \<open>int\<close>.  A motion range is the
  tuple \<open>(start_frame, end_frame)\<close> of \<open>motion_detector.py\<close>.  Frame rates, paddings and
  gap thresholds are Python floats; a float is modelled by the real number it denotes,
  so infinities and NaN are outside the model.  The product of two floats is rounded
  by the runtime: in the clip exporter, where the value of the product matters, it is
  the external operation \<open>float_mul\<close>.  In the range merger the threshold is
  computed with the exact product, and everything proved of the merger holds for every
  threshold.
\<close>

type_synonym segment = "int \<times> int"

text \<open>Python's \<open>int(x)\<close> on a float truncates towards zero.\<close>

definition py_int :: "real \<Rightarrow> int" where
  "py_int x = (if 0 \<le> x then \<lfloor>x\<rfloor> else \<lceil>x\<rceil>)"

section \<open>Range merger (\<open>MotionDetector._merge_ranges\<close>)\<close>

text \<open>
  The \<open>for\<close> loop of \<open>_merge_ranges\<close>: \<open>merged\<close> is the list built so far, the third
  argument is what is left of \<open>sorted_ranges[1:]\<close>.  \<open>merged[-1]\<close> is \<open>last merged\<close> and
  the assignment \<open>merged[-1] = v\<close> replaces the last element; \<open>merged\<close> starts with one
  element and never shrinks, so the index is always in range.
\<close>

fun merge_loop :: "int \<Rightarrow> segment list \<Rightarrow> segment list \<Rightarrow> segment list" where
  "merge_loop gap_threshold_frames merged [] = merged"
| "merge_loop gap_threshold_frames merged ((start, en) # rest) =
     (case last merged of (last_start, last_end) \<Rightarrow>
        if start - last_end \<le> gap_threshold_frames
        then merge_loop gap_threshold_frames
               (butlast merged @ [(last_start, max last_end en)]) rest
        else merge_loop gap_threshold_frames (merged @ [(start, en)]) rest)"

text \<open>
  \<open>sorted(ranges, key=lambda x: x[0])\<close> is a stable sort on the start frame, as is
  \<open>sort_key fst\<close>.
\<close>

definition merge_ranges :: "segment list \<Rightarrow> real \<Rightarrow> real \<Rightarrow> segment list" where
  "merge_ranges ranges fps gap_threshold_seconds =
     (if ranges = [] then []
      else
        let gap_threshold_frames = py_int (gap_threshold_seconds * fps);
            sorted_ranges = sort_key fst ranges
        in merge_loop gap_threshold_frames [hd sorted_ranges] (tl sorted_ranges))"

text \<open>The gap threshold in frames that \<open>_merge_ranges\<close> computes on its third line.\<close>

definition gap_frames :: "real \<Rightarrow> real \<Rightarrow> int" where
  "gap_frames fps gap_threshold_seconds = py_int (gap_threshold_seconds * fps)"

text \<open>
  The same sweep with the segment under construction kept apart from the finished
  ones; used only to reason about \<open>merge_loop\<close>.
\<close>

fun sweep :: "int \<Rightarrow> segment \<Rightarrow> segment list \<Rightarrow> segment list" where
  "sweep g cur [] = [cur]"
| "sweep g cur (x # rest) =
     (if fst x - snd cur \<le> g then sweep g (fst cur, max (snd cur) (snd x)) rest
      else cur # sweep g x rest)"

text \<open>Two adjacent output segments are further apart than the threshold.\<close>

definition apart :: "int \<Rightarrow> segment \<Rightarrow> segment \<Rightarrow> bool" where
  "apart g a b = (g < fst b - snd a)"

text \<open>The closed frame interval a segment stands for.\<close>

definition frames_of :: "segment \<Rightarrow> int set" where
  "frames_of r = {fst r .. snd r}"

section \<open>Motion scorer (\<open>MotionDetector.detect_motion\<close>)\<close>

text \<open>
  A single-channel image is a numpy array of shape \<open>(rows, cols)\<close>; the shape is kept
  explicitly beside the pixel rows.
\<close>

record image =
  rows :: nat
  cols :: nat
  pixels :: "nat list list"

definition shape :: "image \<Rightarrow> nat \<times> nat" where
  "shape img = (rows img, cols img)"

text \<open>
  The slice \<open>gray[y1:y2, x1:x2]\<close>.  It is only taken after clamping and after the
  degenerate case has returned, that is with \<open>0 \<le> x1 < x2 \<le> w\<close> and \<open>0 \<le> y1 < y2 \<le> h\<close>.
\<close>

definition crop :: "image \<Rightarrow> int \<Rightarrow> int \<Rightarrow> int \<Rightarrow> int \<Rightarrow> image" where
  "crop gray x1 y1 x2 y2 =
     \<lparr>rows = nat (y2 - y1), cols = nat (x2 - x1),
      pixels = map (\<lambda>row. take (nat (x2 - x1)) (drop (nat x1) row))
                 (take (nat (y2 - y1)) (drop (nat y1) (pixels gray)))\<rparr>"

text \<open>
  The operations that are not code of the repository; the model takes them as
  parameters and every theorem holds for all of them:
  \<open>gray_blur\<close> is \<open>cvtColor\<close> followed by \<open>GaussianBlur\<close>,
  \<open>motion_mask\<close> is \<open>absdiff\<close>, \<open>threshold\<close> and the two \<open>dilate\<close> iterations,
  \<open>contour_areas\<close> is \<open>findContours\<close> with \<open>contourArea\<close> of every contour,
  \<open>float_mul\<close> is the product \<open>x * y\<close> of two Python floats, that is the exact
  product rounded to a double.
\<close>

record 'f externals =
  gray_blur :: "'f \<Rightarrow> image"
  motion_mask :: "int \<Rightarrow> image \<Rightarrow> image \<Rightarrow> image"
  contour_areas :: "image \<Rightarrow> real list"
  float_mul :: "real \<Rightarrow> real \<Rightarrow> real"

text \<open>
  The fields of \<open>MotionDetector\<close>.  The MOG2 background subtractor that the class also
  allocates is never read and is left out.
\<close>

record detector =
  threshold :: int
  min_contour_area :: int
  sensitivity :: real
  previous_frame :: "image option"

definition reset :: "detector \<Rightarrow> detector" where
  "reset d = d\<lparr>previous_frame := None\<rparr>"

type_synonym roi = "int \<times> int \<times> int \<times> int"

text \<open>Lines 69 to 72: swap the coordinates of an axis given in the wrong order.\<close>

definition normalize_roi :: "roi \<Rightarrow> roi" where
  "normalize_roi r =
     (case r of (x1, y1, x2, y2) \<Rightarrow>
        (case (if x1 > x2 then (x2, x1) else (x1, x2)) of (x1', x2') \<Rightarrow>
         (case (if y1 > y2 then (y2, y1) else (y1, y2)) of (y1', y2') \<Rightarrow>
            (x1', y1', x2', y2'))))"

text \<open>Lines 74 to 76: clamp to the frame, \<open>h, w = gray.shape[:2]\<close>.\<close>

definition clamp_roi :: "nat \<Rightarrow> nat \<Rightarrow> roi \<Rightarrow> roi" where
  "clamp_roi h w r =
     (case r of (x1, y1, x2, y2) \<Rightarrow> (max 0 x1, max 0 y1, min (int w) x2, min (int h) y2))"

text \<open>Line 78: the rectangle is degenerate after normalization and clamping.\<close>

definition roi_degenerate :: "nat \<Rightarrow> nat \<Rightarrow> roi \<Rightarrow> bool" where
  "roi_degenerate h w r =
     (case clamp_roi h w (normalize_roi r) of (x1, y1, x2, y2) \<Rightarrow> x2 \<le> x1 \<or> y2 \<le> y1)"

text \<open>\<open>np.sum(thresh > 0)\<close>.\<close>

definition count_nonzero :: "image \<Rightarrow> nat" where
  "count_nonzero img = sum_list (map (\<lambda>row. length (filter (\<lambda>p. 0 < p) row)) (pixels img))"

text \<open>
  Lines 86 to 164, on the region \<open>roi_gray\<close>: seed the reference when there is none or
  when its shape differs, otherwise compare with it and replace it.  The result is
  \<open>(motion_detected, motion_percentage)\<close> and the updated detector; the visualization
  frame, which is only drawn on, is left out.
\<close>

definition score_region :: "'f externals \<Rightarrow> detector \<Rightarrow> image \<Rightarrow> (bool \<times> real) \<times> detector" where
  "score_region cv d roi_gray =
     (case previous_frame d of
        None \<Rightarrow> ((False, 0), d\<lparr>previous_frame := Some roi_gray\<rparr>)
      | Some prev \<Rightarrow>
          if shape prev \<noteq> shape roi_gray
          then ((False, 0), d\<lparr>previous_frame := Some roi_gray\<rparr>)
          else
            let thresh = motion_mask cv (threshold d) prev roi_gray;
                contours = contour_areas cv thresh;
                motion_pixels = count_nonzero thresh;
                total_pixels = rows thresh * cols thresh;
                motion_percentage =
                  (if total_pixels > 0 then real motion_pixels / real total_pixels else 0);
                significant_motion =
                  list_ex (\<lambda>area. real_of_int (min_contour_area d) \<le> area) contours;
                motion_detected = (significant_motion \<and> sensitivity d \<le> motion_percentage)
            in ((motion_detected, motion_percentage), d\<lparr>previous_frame := Some roi_gray\<rparr>))"

definition detect_motion ::
  "'f externals \<Rightarrow> detector \<Rightarrow> 'f \<Rightarrow> roi option \<Rightarrow> (bool \<times> real) \<times> detector" where
  "detect_motion cv d frame roi =
     (let gray = gray_blur cv frame in
      case roi of
        Some r \<Rightarrow>
          (case clamp_roi (rows gray) (cols gray) (normalize_roi r) of (x1, y1, x2, y2) \<Rightarrow>
             if x2 \<le> x1 \<or> y2 \<le> y1
             then ((False, 0), d\<lparr>previous_frame := None\<rparr>)
             else score_region cv d (crop gray x1 y1 x2 y2))
      | None \<Rightarrow> score_region cv d gray)"

section \<open>Frame source and errors\<close>

text \<open>
  Exceptions are values.  \<open>ValueError\<close> is raised for a source that cannot be opened,
  \<open>ZeroDivisionError\<close> by \<open>frame_count % frame_skip\<close>, by \<open>current * 50 / total\<close> and by
  \<open>actual_start / fps\<close>.
\<close>

datatype error = ValueError string | ZeroDivisionError

text \<open>
  What \<open>cv2.VideoCapture(path)\<close> gives: whether it opened, the frames that successive
  \<open>read()\<close> calls deliver before the first failed read, and the properties the container
  reports (as floats).  The reported frame count need not be the number of readable
  frames.
\<close>

record 'f video =
  is_opened :: bool
  stream :: "'f list"
  prop_frame_count :: real
  prop_fps :: real
  prop_width :: real
  prop_height :: real

text \<open>
  \<open>cap.set(CAP_PROP_POS_FRAMES, n)\<close>, by the contract of the frame source (random seek
  to a frame index): the following reads deliver the frames from index \<open>n\<close> on.
\<close>

definition seek :: "'f list \<Rightarrow> int \<Rightarrow> 'f list" where
  "seek frames n = drop (nat n) frames"

section \<open>Segment tracker (\<open>MotionDetector.analyze_video_for_motion\<close>)\<close>

record analysis =
  det :: detector
  motion_ranges :: "segment list"
  current_motion_start :: "int option"
  frame_count :: int

text \<open>Lines 215 to 221: what one sampled frame does to the tracker.\<close>

definition track_sample :: "bool \<Rightarrow> analysis \<Rightarrow> analysis" where
  "track_sample motion_detected st =
     (if motion_detected then
        (case current_motion_start st of
           None \<Rightarrow> st\<lparr>current_motion_start := Some (frame_count st)\<rparr>
         | Some s \<Rightarrow> st)
      else
        (case current_motion_start st of
           Some s \<Rightarrow> st\<lparr>motion_ranges := motion_ranges st @ [(s, frame_count st - 1)],
                        current_motion_start := None\<rparr>
         | None \<Rightarrow> st))"

text \<open>Lines 212 to 221: score the frame if it is sampled.\<close>

definition sample_frame :: "'f externals \<Rightarrow> roi \<Rightarrow> int \<Rightarrow> 'f \<Rightarrow> analysis \<Rightarrow> analysis" where
  "sample_frame cv roi frame_skip frame st =
     (if frame_count st mod frame_skip = 0 then
        (case detect_motion cv (det st) frame (Some roi) of
           ((motion_detected, pct), d') \<Rightarrow> track_sample motion_detected (st\<lparr>det := d'\<rparr>))
      else st)"

text \<open>
  The \<open>while True\<close> loop, by recursion on the frames still to be read.  \<open>stop_check\<close> is
  polled with the current \<open>frame_count\<close>; \<open>progress_callback\<close> returns the exception it
  raises, if any.
\<close>

fun analysis_loop ::
  "'f externals \<Rightarrow> roi \<Rightarrow> int \<Rightarrow> (int \<Rightarrow> bool) option \<Rightarrow> (int \<Rightarrow> int \<Rightarrow> error option) option \<Rightarrow>
   int \<Rightarrow> 'f list \<Rightarrow> analysis \<Rightarrow> error + analysis" where
  "analysis_loop cv roi frame_skip stop_check progress_callback total_frames [] st = Inr st"
| "analysis_loop cv roi frame_skip stop_check progress_callback total_frames (frame # rest) st =
     (if (case stop_check of None \<Rightarrow> False | Some sc \<Rightarrow> sc (frame_count st)) then Inr st
      else if frame_skip = 0 then Inl ZeroDivisionError
      else
        (case sample_frame cv roi frame_skip frame st of st1 \<Rightarrow>
         (case st1\<lparr>frame_count := frame_count st1 + 1\<rparr> of st2 \<Rightarrow>
          (case (case progress_callback of None \<Rightarrow> None
                 | Some cb \<Rightarrow> cb (frame_count st2) total_frames) of
             Some e \<Rightarrow> Inl e
           | None \<Rightarrow>
               analysis_loop cv roi frame_skip stop_check progress_callback total_frames
                 rest st2))))"

text \<open>Lines 229 and 230: close the range that is still open when the loop ends.\<close>

definition close_last :: "analysis \<Rightarrow> segment list" where
  "close_last st =
     (case current_motion_start st of
        Some s \<Rightarrow> motion_ranges st @ [(s, frame_count st - 1)]
      | None \<Rightarrow> motion_ranges st)"

definition initial_analysis :: "detector \<Rightarrow> analysis" where
  "initial_analysis d =
     \<lparr>det = reset d, motion_ranges = [], current_motion_start = None, frame_count = 0\<rparr>"

text \<open>
  \<open>analyze_video_for_motion\<close>.  \<open>fs\<close> maps a path to what \<open>cv2.VideoCapture\<close> opens
  there.  The detector is reset first, so the result does not depend on the reference
  left by an earlier video; the detector state after the call is not returned.
\<close>

definition analyze_video_for_motion ::
  "'f externals \<Rightarrow> (string \<Rightarrow> 'f video) \<Rightarrow> detector \<Rightarrow> string \<Rightarrow> roi \<Rightarrow> int \<Rightarrow> real \<Rightarrow>
   (int \<Rightarrow> int \<Rightarrow> error option) option \<Rightarrow> (int \<Rightarrow> bool) option \<Rightarrow> error + segment list" where
  "analyze_video_for_motion cv fs d video_path roi frame_skip merge_gap_seconds
       progress_callback stop_check =
     (let cap = fs video_path in
      if \<not> is_opened cap then Inl (ValueError (''Could not open video: '' @ video_path))
      else
        let total_frames = py_int (prop_frame_count cap);
            fps = prop_fps cap
        in case analysis_loop cv roi frame_skip stop_check progress_callback total_frames
                  (stream cap) (initial_analysis d) of
             Inl e \<Rightarrow> Inl e
           | Inr st \<Rightarrow> Inr (merge_ranges (close_last st) fps merge_gap_seconds))"

section \<open>Clip exporter (\<open>VideoProcessor.export_clip\<close>)\<close>

text \<open>
  The fields of \<open>VideoProcessor\<close> that the pipeline reads.  \<open>stop_requested\<close> is the
  flag \<open>_stop_requested\<close>; within one sequential run nothing changes it.
\<close>

record processor =
  padding_before :: real
  padding_after :: real
  merge_gap :: real
  motion_detector :: detector
  stop_requested :: bool

text \<open>
  Lines 129 to 133: the padded and clamped window.  \<open>mul\<close> is the float product, so
  \<open>int(self.padding_before * fps)\<close> is \<open>py_int (mul padding_before_s fps)\<close>.
\<close>

definition actual_start :: "(real \<Rightarrow> real \<Rightarrow> real) \<Rightarrow> real \<Rightarrow> real \<Rightarrow> int \<Rightarrow> int" where
  "actual_start mul padding_before_s fps start_frame =
     (let padding_frames_before = py_int (mul padding_before_s fps)
      in max 0 (start_frame - padding_frames_before))"

definition actual_end :: "(real \<Rightarrow> real \<Rightarrow> real) \<Rightarrow> real \<Rightarrow> real \<Rightarrow> int \<Rightarrow> int \<Rightarrow> int" where
  "actual_end mul padding_after_s fps total_frames end_frame =
     (let padding_frames_after = py_int (mul padding_after_s fps)
      in min (total_frames - 1) (end_frame + padding_frames_after))"

text \<open>
  Lines 156 to 165: read and write frame by frame.  The third argument holds the frames
  the capture still delivers, the fourth the frames given to the writer so far.
\<close>

fun write_loop :: "int \<Rightarrow> int \<Rightarrow> 'f list \<Rightarrow> 'f list \<Rightarrow> 'f list" where
  "write_loop frames_to_write frames_written [] written = written"
| "write_loop frames_to_write frames_written (frame # rest) written =
     (if frames_written < frames_to_write
      then write_loop frames_to_write (frames_written + 1) rest (written @ [frame])
      else written)"

text \<open>
  An exported file: the window it was cut for, the writer's frame rate and size, and
  the frames written.  The file name, which contains a time stamp, is not modelled.
\<close>

record 'f clip =
  clip_start :: int
  clip_end :: int
  clip_fps :: real
  clip_size :: "int \<times> int"
  clip_frames :: "'f list"

text \<open>
  \<open>export_clip\<close>, with the float product \<open>mul\<close>.  When no \<open>output_name\<close> is given
  the name is built from \<open>actual_start / fps\<close>, a float division that raises for
  \<open>fps = 0\<close>.
\<close>

definition export_clip ::
  "(real \<Rightarrow> real \<Rightarrow> real) \<Rightarrow> (string \<Rightarrow> 'f video) \<Rightarrow> processor \<Rightarrow> string \<Rightarrow> int \<Rightarrow> int \<Rightarrow>
   string option \<Rightarrow> error + 'f clip" where
  "export_clip mul fs p video_path start_frame end_frame output_name =
     (let cap = fs video_path in
      if \<not> is_opened cap then Inl (ValueError (''Could not open video: '' @ video_path))
      else
        let fps = prop_fps cap;
            width = py_int (prop_width cap);
            height = py_int (prop_height cap);
            total_frames = py_int (prop_frame_count cap);
            a_start = actual_start mul (padding_before p) fps start_frame;
            a_end = actual_end mul (padding_after p) fps total_frames end_frame
        in if output_name = None \<and> fps = 0 then Inl ZeroDivisionError
           else
             let frames_to_write = a_end - a_start + 1
             in Inr \<lparr>clip_start = a_start, clip_end = a_end, clip_fps = fps,
                     clip_size = (width, height),
                     clip_frames = write_loop frames_to_write 0 (seek (stream cap) a_start) []\<rparr>)"

section \<open>Orchestration (\<open>process_video\<close>, \<open>process_all_videos\<close>)\<close>

text \<open>\<open>config.FRAME_SKIP\<close>, the default of \<open>frame_skip\<close> that \<open>process_video\<close> relies on.\<close>

definition FRAME_SKIP :: int where
  "FRAME_SKIP = 2"

text \<open>
  The closure \<open>analysis_progress\<close> of \<open>process_video\<close>: with a progress callback it
  evaluates \<open>int(current * 50 / total)\<close>, which raises when the total is zero.  The callbacks of
  the user interface themselves are taken not to raise.
\<close>

definition analysis_progress :: "bool \<Rightarrow> int \<Rightarrow> int \<Rightarrow> error option" where
  "analysis_progress has_callback current total_frames =
     (if has_callback \<and> total_frames = 0 then Some ZeroDivisionError else None)"

text \<open>The export loop of \<open>process_video\<close> (lines 228 to 241).\<close>

fun export_loop ::
  "(real \<Rightarrow> real \<Rightarrow> real) \<Rightarrow> (string \<Rightarrow> 'f video) \<Rightarrow> processor \<Rightarrow> string \<Rightarrow>
   segment list \<Rightarrow> 'f clip list \<Rightarrow> error + 'f clip list" where
  "export_loop mul fs p video_path [] exported_clips = Inr exported_clips"
| "export_loop mul fs p video_path ((start_frame, end_frame) # rest) exported_clips =
     (if stop_requested p then Inr exported_clips
      else
        (case export_clip mul fs p video_path start_frame end_frame None of
           Inl e \<Rightarrow> Inl e
         | Inr clip_path \<Rightarrow>
             export_loop mul fs p video_path rest (exported_clips @ [clip_path])))"

definition process_video ::
  "'f externals \<Rightarrow> (string \<Rightarrow> 'f video) \<Rightarrow> processor \<Rightarrow> string \<Rightarrow> roi \<Rightarrow> bool \<Rightarrow>
   error + 'f clip list" where
  "process_video cv fs p video_path roi has_callback =
     (if stop_requested p then Inr []
      else
        (case analyze_video_for_motion cv fs (motion_detector p) video_path roi FRAME_SKIP
                (merge_gap p) (Some (analysis_progress has_callback))
                (Some (\<lambda>n. stop_requested p)) of
           Inl e \<Rightarrow> Inl e
         | Inr ranges \<Rightarrow>
             if stop_requested p then Inr []
             else if ranges = [] then Inr []
             else export_loop (float_mul cv) fs p video_path ranges []))"

text \<open>
  The loop of \<open>process_all_videos\<close> over the files that \<open>get_video_files\<close> found; the
  \<open>try\<close>/\<open>except Exception\<close> turns every exception of \<open>process_video\<close> into an empty
  list for that video.  \<open>process_video\<close> is always given the closure \<open>video_progress\<close>
  as its callback.
\<close>

fun process_videos_loop ::
  "'f externals \<Rightarrow> (string \<Rightarrow> 'f video) \<Rightarrow> processor \<Rightarrow> roi \<Rightarrow> string list \<Rightarrow>
   (string \<rightharpoonup> 'f clip list) \<Rightarrow> (string \<rightharpoonup> 'f clip list)" where
  "process_videos_loop cv fs p roi [] results = results"
| "process_videos_loop cv fs p roi (video_path # rest) results =
     (if stop_requested p then results
      else
        process_videos_loop cv fs p roi rest
          (results(video_path \<mapsto>
             (case process_video cv fs p video_path roi True of
                Inr clips \<Rightarrow> clips
              | Inl e \<Rightarrow> []))))"

definition process_all_videos ::
  "'f externals \<Rightarrow> (string \<Rightarrow> 'f video) \<Rightarrow> processor \<Rightarrow> roi \<Rightarrow> string list \<Rightarrow>
   (string \<rightharpoonup> 'f clip list)" where
  "process_all_videos cv fs p roi video_files =
     (if video_files = [] then Map.empty
      else process_videos_loop cv fs p roi video_files Map.empty)"

section \<open>Notions used to state the properties of the tracker\<close>

text \<open>
  Line 212: the frame with index \<open>i\<close> is passed to the scorer exactly when
  \<open>i % frame_skip == 0\<close>; such an index is a sampled-frame index.
\<close>

definition sampled_index :: "int \<Rightarrow> int \<Rightarrow> bool" where
  "sampled_index frame_skip i = (0 \<le> i \<and> i mod frame_skip = 0)"

text \<open>
  What holds of the tracker after at least one frame has been read: every closed range
  starts at a sampled index other than 0 and ends just before a sampled index, and an
  open range started at such an index.
\<close>

definition tracker_inv :: "int \<Rightarrow> analysis \<Rightarrow> bool" where
  "tracker_inv k st =
     (0 < frame_count st \<and>
      list_all (\<lambda>seg. 0 < fst seg \<and> fst seg mod k = 0 \<and> fst seg \<le> snd seg \<and>
                      (snd seg + 1) mod k = 0 \<and> snd seg < frame_count st) (motion_ranges st) \<and>
      (case current_motion_start st of
         None \<Rightarrow> True
       | Some s \<Rightarrow> 0 < s \<and> s mod k = 0 \<and> s < frame_count st))"

section \<open>A worked example\<close>

text \<open>
  The external operations on the inputs of the examples, used only to run the model.
  The frames of the examples are gray and uniform (every pixel has the same value), so
  blurring leaves a frame as it is, the thresholded difference of two frames is all set
  or all clear and dilation leaves it so, and a mask that is all set has one contour,
  the rectangle through the centres of its border pixels, of area
  \<open>(rows - 1) * (cols - 1)\<close>.  The float products of the examples (2 times 10) are
  exact.
\<close>

definition demo_gray :: "image \<Rightarrow> image" where
  "demo_gray frame = frame"

definition demo_mask :: "int \<Rightarrow> image \<Rightarrow> image \<Rightarrow> image" where
  "demo_mask t prev cur =
     \<lparr>rows = rows cur, cols = cols cur,
      pixels = map2 (map2 (\<lambda>a b. if t < \<bar>int a - int b\<bar> then 255 else 0))
                 (pixels prev) (pixels cur)\<rparr>"

definition demo_contours :: "image \<Rightarrow> real list" where
  "demo_contours m =
     (if count_nonzero m = 0 then [] else [real ((rows m - 1) * (cols m - 1))])"

definition demo_mul :: "real \<Rightarrow> real \<Rightarrow> real" where
  "demo_mul x y = x * y"

definition demo_cv :: "image externals" where
  "demo_cv =
     \<lparr>gray_blur = demo_gray, motion_mask = demo_mask, contour_areas = demo_contours,
      float_mul = demo_mul\<rparr>"

text \<open>A uniform frame of 2 by 2 pixels.\<close>

definition flat :: "nat \<Rightarrow> image" where
  "flat v = \<lparr>rows = 2, cols = 2, pixels = [[v, v], [v, v]]\<rparr>"

text \<open>
  A file at 10 frames per second whose container reports 8 frames, of which 5 can be
  read: the picture changes between frame 1 and frame 2.
\<close>

definition demo_video :: "image video" where
  "demo_video =
     \<lparr>is_opened = True, stream = [flat 0, flat 0, flat 100, flat 100, flat 100],
      prop_frame_count = 8, prop_fps = 10, prop_width = 2, prop_height = 2\<rparr>"

definition unopened_video :: "image video" where
  "unopened_video =
     \<lparr>is_opened = False, stream = [],
      prop_frame_count = 0, prop_fps = 0, prop_width = 0, prop_height = 0\<rparr>"

text \<open>A file of two frames that differ.\<close>

definition early_video :: "image video" where
  "early_video =
     \<lparr>is_opened = True, stream = [flat 0, flat 100],
      prop_frame_count = 2, prop_fps = 10, prop_width = 2, prop_height = 2\<rparr>"

definition demo_fs :: "string \<Rightarrow> image video" where
  "demo_fs path =
     (if path = ''a.mp4'' then demo_video
      else if path = ''e.mp4'' then early_video
      else unopened_video)"

definition demo_detector :: detector where
  "demo_detector =
     \<lparr>threshold = 25, min_contour_area = 1, sensitivity = 1 / 100, previous_frame = None\<rparr>"

definition demo_processor :: processor where
  "demo_processor =
     \<lparr>padding_before = 2, padding_after = 2, merge_gap = 10,
      motion_detector = demo_detector, stop_requested = False\<rparr>"

section \<open>Properties of the range merger\<close>

lemma merge_loop_sweep:
  "merge_loop g (pre @ [cur]) rest = pre @ sweep g cur rest"
proof (induction rest arbitrary: pre cur)
  case Nil
  show ?case by simp
next
  case (Cons x rest)
  obtain s e where x: "x = (s, e)" by (cases x)
  obtain ls le where cur: "cur = (ls, le)" by (cases cur)
  show ?case
  proof (cases "s - le \<le> g")
    case True
    then show ?thesis
      using Cons.IH [of pre "(ls, max le e)"] by (simp add: x cur)
  next
    case False
    then show ?thesis
      using Cons.IH [of "pre @ [cur]" x] by (simp add: x cur)
  qed
qed

lemma merge_ranges_sweep:
  assumes "ranges \<noteq> []"
  shows "merge_ranges ranges fps gs =
         sweep (gap_frames fps gs) (hd (sort_key fst ranges)) (tl (sort_key fst ranges))"
  using assms merge_loop_sweep [of _ "[]"]
  by (simp add: merge_ranges_def gap_frames_def Let_def)

lemma sweep_nonempty: "sweep g cur rest \<noteq> []"
  by (induction rest arbitrary: cur) auto

lemma hd_sweep: "fst (hd (sweep g cur rest)) = fst cur"
  by (induction rest arbitrary: cur) auto

lemma sweep_apart: "successively (apart g) (sweep g cur rest)"
proof (induction rest arbitrary: cur)
  case Nil
  show ?case by simp
next
  case (Cons x rest)
  show ?case
  proof (cases "fst x - snd cur \<le> g")
    case True
    then show ?thesis using Cons.IH by simp
  next
    case False
    then have "apart g cur (hd (sweep g x rest))"
      by (simp add: apart_def hd_sweep)
    then show ?thesis
      using False Cons.IH [of x] by (simp add: successively_Cons)
  qed
qed

lemma sweep_starts: "fst ` set (sweep g cur rest) \<subseteq> fst ` set (cur # rest)"
proof (induction rest arbitrary: cur)
  case Nil
  show ?case by simp
next
  case (Cons x rest)
  show ?case
    using Cons.IH [of "(fst cur, max (snd cur) (snd x))"] Cons.IH [of x]
    by (cases "fst x - snd cur \<le> g") auto
qed

lemma sweep_ends: "snd ` set (sweep g cur rest) \<subseteq> snd ` set (cur # rest)"
proof (induction rest arbitrary: cur)
  case Nil
  show ?case by simp
next
  case (Cons x rest)
  have m: "max (snd cur) (snd x) = snd cur \<or> max (snd cur) (snd x) = snd x"
    by (simp add: max_def)
  show ?case
  proof (cases "fst x - snd cur \<le> g")
    case True
    then show ?thesis
      using Cons.IH [of "(fst cur, max (snd cur) (snd x))"] m by auto
  next
    case False
    then show ?thesis using Cons.IH [of x] by auto
  qed
qed

lemma sweep_sorted:
  "sorted (map fst (cur # rest)) \<Longrightarrow> sorted (map fst (sweep g cur rest))"
proof (induction rest arbitrary: cur)
  case Nil
  show ?case by simp
next
  case (Cons x rest)
  show ?case
  proof (cases "fst x - snd cur \<le> g")
    case True
    have "sorted (map fst ((fst cur, max (snd cur) (snd x)) # rest))"
      using Cons.prems by auto
    then show ?thesis using True Cons.IH by simp
  next
    case False
    have s: "sorted (map fst (x # rest))" using Cons.prems by simp
    have lo: "\<forall>y \<in> fst ` set (x # rest). fst cur \<le> y"
      using Cons.prems by auto
    have "\<forall>y \<in> fst ` set (sweep g x rest). fst cur \<le> y"
    proof
      fix y assume "y \<in> fst ` set (sweep g x rest)"
      then have "y \<in> fst ` set (x # rest)" using sweep_starts [of g x rest] by blast
      then show "fst cur \<le> y" using lo by blast
    qed
    then show ?thesis using False Cons.IH [OF s] by simp
  qed
qed

lemma sweep_covers:
  "sorted (map fst (cur # rest)) \<Longrightarrow> r \<in> set (cur # rest) \<Longrightarrow>
   \<exists>m \<in> set (sweep g cur rest). fst m \<le> fst r \<and> snd r \<le> snd m"
proof (induction rest arbitrary: cur r)
  case Nil
  then show ?case by simp
next
  case (Cons x rest)
  show ?case
  proof (cases "fst x - snd cur \<le> g")
    case True
    let ?c = "(fst cur, max (snd cur) (snd x))"
    have s: "sorted (map fst (?c # rest))" using Cons.prems(1) by auto
    have le: "fst cur \<le> fst x" using Cons.prems(1) by simp
    show ?thesis
    proof (cases "r \<in> set rest")
      case True
      then have "r \<in> set (?c # rest)" by simp
      from Cons.IH [OF s this] show ?thesis
        using \<open>fst x - snd cur \<le> g\<close> by simp
    next
      case False
      then have r: "r = cur \<or> r = x" using Cons.prems(2) by auto
      have "?c \<in> set (?c # rest)" by simp
      from Cons.IH [OF s this]
      obtain m where m: "m \<in> set (sweep g ?c rest)" "fst m \<le> fst cur"
        "max (snd cur) (snd x) \<le> snd m" by auto
      have "fst m \<le> fst r \<and> snd r \<le> snd m"
        using r m le by auto
      then show ?thesis using m(1) \<open>fst x - snd cur \<le> g\<close> by auto
    qed
  next
    case False
    have s: "sorted (map fst (x # rest))" using Cons.prems(1) by simp
    show ?thesis
    proof (cases "r = cur")
      case True
      then show ?thesis using False by simp
    next
      case neq: False
      then have "r \<in> set (x # rest)" using Cons.prems(2) by auto
      from Cons.IH [OF s this] show ?thesis using False by auto
    qed
  qed
qed

lemma sweep_fixed: "successively (apart g) (cur # rest) \<Longrightarrow> sweep g cur rest = cur # rest"
proof (induction rest arbitrary: cur)
  case Nil
  show ?case by simp
next
  case (Cons x rest)
  then show ?case by (simp add: apart_def)
qed

lemma merge_ranges_nonempty: "ranges \<noteq> [] \<Longrightarrow> merge_ranges ranges fps gs \<noteq> []"
  by (simp add: merge_ranges_sweep sweep_nonempty)

lemma merge_ranges_apart:
  "successively (apart (gap_frames fps gs)) (merge_ranges ranges fps gs)"
proof (cases "ranges = []")
  case True
  then show ?thesis by (simp add: merge_ranges_def)
next
  case False
  then show ?thesis by (simp add: merge_ranges_sweep sweep_apart)
qed

lemma merge_ranges_sorted: "sorted (map fst (merge_ranges ranges fps gs))"
proof (cases "ranges = []")
  case True
  then show ?thesis by (simp add: merge_ranges_def)
next
  case False
  let ?s = "sort_key fst ranges"
  have ne: "?s \<noteq> []" using False by (metis length_sort length_0_conv)
  have "sorted (map fst ?s)" by simp
  then have "sorted (map fst (hd ?s # tl ?s))" using ne by simp
  from sweep_sorted [OF this] show ?thesis
    using False by (simp add: merge_ranges_sweep)
qed

lemma apart_sorted_disjoint:
  assumes g: "0 \<le> g"
    and ap: "successively (apart g) xs"
    and so: "sorted (map fst xs)"
    and ij: "i < j" "j < length xs"
  shows "snd (xs ! i) < fst (xs ! j)"
proof -
  have "apart g (xs ! i) (xs ! Suc i)"
    using ap ij by (simp add: successively_conv_nth)
  then have a: "snd (xs ! i) < fst (xs ! Suc i)"
    using g by (simp add: apart_def)
  have "map fst xs ! Suc i \<le> map fst xs ! j"
    using so ij by (intro sorted_nth_mono) auto
  then have "fst (xs ! Suc i) \<le> fst (xs ! j)"
    using ij by simp
  then show ?thesis using a by simp
qed

section \<open>Claims about the range merger\<close>

text \<open>
  C1. For every non-empty list of segments, in any order, and every threshold with
  \<open>gap_frames \<ge> 0\<close>, the output of the range merger is sorted ascending by start, any
  two output segments are disjoint (the earlier one ends before the later one starts, so
  their frame intervals share no frame), and every adjacent output pair satisfies
  \<open>next.start - prev.end > gap_frames\<close>.  Empty input yields empty output.
\<close>

theorem C1_merge_sorted_disjoint_separated:
  "merge_ranges [] fps gs = [] \<and>
   (ranges \<noteq> [] \<and> 0 \<le> gap_frames fps gs \<longrightarrow>
      (let out = merge_ranges ranges fps gs in
         out \<noteq> [] \<and>
         sorted (map fst out) \<and>
         (\<forall>i j. i < j \<and> j < length out \<longrightarrow>
            snd (out ! i) < fst (out ! j) \<and> frames_of (out ! i) \<inter> frames_of (out ! j) = {}) \<and>
         (\<forall>i. Suc i < length out \<longrightarrow>
            fst (out ! Suc i) - snd (out ! i) > gap_frames fps gs)))"
proof -
  have e: "merge_ranges [] fps gs = []" by (simp add: merge_ranges_def)
  {
    assume ne: "ranges \<noteq> []" and g: "0 \<le> gap_frames fps gs"
    let ?out = "merge_ranges ranges fps gs"
    have ap: "successively (apart (gap_frames fps gs)) ?out" by (rule merge_ranges_apart)
    have so: "sorted (map fst ?out)" by (rule merge_ranges_sorted)
    have d: "\<forall>i j. i < j \<and> j < length ?out \<longrightarrow>
        snd (?out ! i) < fst (?out ! j) \<and> frames_of (?out ! i) \<inter> frames_of (?out ! j) = {}"
    proof (intro allI impI)
      fix i j assume "i < j \<and> j < length ?out"
      then have "snd (?out ! i) < fst (?out ! j)"
        using apart_sorted_disjoint [OF g ap so] by simp
      then show "snd (?out ! i) < fst (?out ! j) \<and>
          frames_of (?out ! i) \<inter> frames_of (?out ! j) = {}"
        by (auto simp: frames_of_def)
    qed
    have a: "\<forall>i. Suc i < length ?out \<longrightarrow>
        fst (?out ! Suc i) - snd (?out ! i) > gap_frames fps gs"
      using ap by (simp add: successively_conv_nth apart_def)
    have "?out \<noteq> [] \<and> sorted (map fst ?out) \<and>
        (\<forall>i j. i < j \<and> j < length ?out \<longrightarrow>
            snd (?out ! i) < fst (?out ! j) \<and>
            frames_of (?out ! i) \<inter> frames_of (?out ! j) = {}) \<and>
        (\<forall>i. Suc i < length ?out \<longrightarrow>
            fst (?out ! Suc i) - snd (?out ! i) > gap_frames fps gs)"
      using merge_ranges_nonempty [OF ne] so d a by blast
  }
  then show ?thesis using e by (simp add: Let_def)
qed

text \<open>C1 at the input \<open>[(25,30), (10,20), (26,40)]\<close>, \<open>fps = 10\<close>, \<open>gap = 0.1 s\<close>.\<close>

theorem C1_witness:
  "[(25, 30), (10, 20), (26, 40)] \<noteq> ([] :: segment list) \<and> 0 \<le> gap_frames 10 (1 / 10) \<and>
   merge_ranges [(25, 30), (10, 20), (26, 40)] 10 (1 / 10) = [(10, 20), (25, 40)] \<and>
   sorted (map fst (merge_ranges [(25, 30), (10, 20), (26, 40)] 10 (1 / 10))) \<and>
   gap_frames 10 (1 / 10) < 25 - 20"
proof -
  have h: "[(25, 30), (10, 20), (26, 40)] \<noteq> ([] :: segment list) \<and> 0 \<le> gap_frames 10 (1 / 10)"
    by (simp add: gap_frames_def py_int_def)
  have s: "sorted (map fst (merge_ranges [(25, 30), (10, 20), (26, 40)] 10 (1 / 10)))"
    using C1_merge_sorted_disjoint_separated [of 10 "1 / 10" "[(25, 30), (10, 20), (26, 40)]"] h
    by (simp add: Let_def)
  have m: "merge_ranges [(25, 30), (10, 20), (26, 40)] 10 (1 / 10) = [(10, 20), (25, 40)]"
    by (simp add: merge_ranges_def py_int_def)
  show ?thesis using h s m by (simp add: gap_frames_def py_int_def)
qed

text \<open>
  C6. Applying the range merger to its own output returns that output unchanged:
  \<open>merge(merge(S, fps, g), fps, g) = merge(S, fps, g)\<close>, for every segment list, every
  frame rate and every gap (in particular for \<open>fps > 0\<close> and \<open>g \<ge> 0\<close>).
\<close>

theorem C6_merge_idempotent:
  "merge_ranges (merge_ranges S fps g) fps g = merge_ranges S fps g"
proof (cases "S = []")
  case True
  then show ?thesis by (simp add: merge_ranges_def)
next
  case False
  let ?out = "merge_ranges S fps g"
  have ne: "?out \<noteq> []" using False by (rule merge_ranges_nonempty)
  have "sorted (map fst ?out)" by (rule merge_ranges_sorted)
  then have so: "sort_key fst ?out = ?out" by (rule sort_key_id_if_sorted)
  have "successively (apart (gap_frames fps g)) (hd ?out # tl ?out)"
    using ne merge_ranges_apart [of fps g S] by simp
  then have "sweep (gap_frames fps g) (hd ?out) (tl ?out) = hd ?out # tl ?out"
    by (rule sweep_fixed)
  then show ?thesis
    using ne so by (simp add: merge_ranges_sweep)
qed

text \<open>
  C10. Merging loses no coverage and invents no frames: every input interval is
  contained in some output interval, and every output interval starts at the start of
  some input interval and ends at the end of some input interval.
\<close>

theorem C10_merge_coverage:
  "(\<forall>r \<in> set ranges. \<exists>m \<in> set (merge_ranges ranges fps gs).
       fst m \<le> fst r \<and> snd r \<le> snd m \<and> frames_of r \<subseteq> frames_of m) \<and>
   (\<forall>m \<in> set (merge_ranges ranges fps gs).
       (\<exists>r \<in> set ranges. fst m = fst r) \<and> (\<exists>r \<in> set ranges. snd m = snd r))"
proof (cases "ranges = []")
  case True
  then show ?thesis by (simp add: merge_ranges_def)
next
  case False
  let ?s = "sort_key fst ranges"
  let ?g = "gap_frames fps gs"
  have ne: "?s \<noteq> []" using False by (metis length_sort length_0_conv)
  have ht: "hd ?s # tl ?s = ?s" using ne by simp
  have out: "merge_ranges ranges fps gs = sweep ?g (hd ?s) (tl ?s)"
    using False by (rule merge_ranges_sweep)
  have so: "sorted (map fst (hd ?s # tl ?s))" using ht by simp
  have st: "set (hd ?s # tl ?s) = set ranges" using ht by simp
  have cover: "\<forall>r \<in> set ranges. \<exists>m \<in> set (merge_ranges ranges fps gs).
       fst m \<le> fst r \<and> snd r \<le> snd m \<and> frames_of r \<subseteq> frames_of m"
  proof
    fix r assume "r \<in> set ranges"
    then have "r \<in> set (hd ?s # tl ?s)" using st by simp
    from sweep_covers [OF so this, of ?g]
    obtain m where m: "m \<in> set (sweep ?g (hd ?s) (tl ?s))" "fst m \<le> fst r" "snd r \<le> snd m"
      by blast
    then have "frames_of r \<subseteq> frames_of m" by (auto simp: frames_of_def)
    then show "\<exists>m \<in> set (merge_ranges ranges fps gs).
       fst m \<le> fst r \<and> snd r \<le> snd m \<and> frames_of r \<subseteq> frames_of m"
      using m out by auto
  qed
  have bounds: "\<forall>m \<in> set (merge_ranges ranges fps gs).
       (\<exists>r \<in> set ranges. fst m = fst r) \<and> (\<exists>r \<in> set ranges. snd m = snd r)"
  proof
    fix m assume "m \<in> set (merge_ranges ranges fps gs)"
    then have m: "m \<in> set (sweep ?g (hd ?s) (tl ?s))" using out by simp
    have "fst m \<in> fst ` set (hd ?s # tl ?s)"
      using m sweep_starts [of ?g "hd ?s" "tl ?s"] by blast
    moreover have "snd m \<in> snd ` set (hd ?s # tl ?s)"
      using m sweep_ends [of ?g "hd ?s" "tl ?s"] by blast
    ultimately show "(\<exists>r \<in> set ranges. fst m = fst r) \<and> (\<exists>r \<in> set ranges. snd m = snd r)"
      unfolding st by auto
  qed
  show ?thesis using cover bounds by blast
qed

text \<open>C10 at the input \<open>[(25,30), (10,20)]\<close>, \<open>fps = 10\<close>, \<open>gap = 2 s\<close>.\<close>

theorem C10_witness:
  "(10, 20) \<in> set [(25, 30), (10, 20)] \<and>
   merge_ranges [(25, 30), (10, 20)] 10 2 = [(10, 30)] \<and>
   (\<exists>m \<in> set (merge_ranges [(25, 30), (10, 20)] 10 2). fst m \<le> 10 \<and> 20 \<le> snd m) \<and>
   (\<exists>r \<in> set [(25, 30), (10, 20)]. fst (10 :: int, 30 :: int) = fst r)"
proof -
  have m: "merge_ranges [(25, 30), (10, 20)] 10 2 = [(10, 30)]"
    by (simp add: merge_ranges_def py_int_def)
  have "\<exists>m \<in> set (merge_ranges [(25, 30), (10, 20)] 10 2). fst m \<le> fst (10 :: int, 20 :: int) \<and> snd (10 :: int, 20 :: int) \<le> snd m"
    using C10_merge_coverage [of "[(25, 30), (10, 20)]" 10 2] by fastforce
  then show ?thesis using m by simp
qed

section \<open>Properties of the motion scorer\<close>

lemma score_region_seed:
  "previous_frame d = None \<or> (\<exists>p. previous_frame d = Some p \<and> shape p \<noteq> shape g) \<Longrightarrow>
   score_region cv d g = ((False, 0), d\<lparr>previous_frame := Some g\<rparr>)"
  by (auto simp: score_region_def)

lemma detect_motion_degenerate:
  "roi_degenerate (rows (gray_blur cv frame)) (cols (gray_blur cv frame)) r \<Longrightarrow>
   detect_motion cv d frame (Some r) = ((False, 0), d\<lparr>previous_frame := None\<rparr>)"
  by (auto simp: detect_motion_def roi_degenerate_def Let_def split: prod.splits)

lemma detect_motion_region:
  "\<not> roi_degenerate (rows (gray_blur cv frame)) (cols (gray_blur cv frame)) r \<Longrightarrow>
   clamp_roi (rows (gray_blur cv frame)) (cols (gray_blur cv frame)) (normalize_roi r) = (x1, y1, x2, y2) \<Longrightarrow>
   detect_motion cv d frame (Some r) = score_region cv d (crop (gray_blur cv frame) x1 y1 x2 y2)"
  by (auto simp: detect_motion_def roi_degenerate_def Let_def split: prod.splits)

lemma detect_motion_after_reset:
  "fst (detect_motion cv (reset d) frame roi) = (False, 0)"
proof (cases roi)
  case None
  then show ?thesis
    by (simp add: detect_motion_def reset_def score_region_def Let_def)
next
  case (Some r)
  show ?thesis
  proof (cases "roi_degenerate (rows (gray_blur cv frame)) (cols (gray_blur cv frame)) r")
    case True
    then show ?thesis using Some by (simp add: detect_motion_degenerate)
  next
    case False
    obtain x1 y1 x2 y2 where c: "clamp_roi (rows (gray_blur cv frame)) (cols (gray_blur cv frame)) (normalize_roi r) = (x1, y1, x2, y2)"
      by (cases "clamp_roi (rows (gray_blur cv frame)) (cols (gray_blur cv frame)) (normalize_roi r)") auto
    show ?thesis
      using Some detect_motion_region [OF False c, of "reset d"]
      by (simp add: score_region_def reset_def)
  qed
qed

lemma normalize_roi_min_max:
  "normalize_roi (x1, y1, x2, y2) = (min x1 x2, min y1 y2, max x1 x2, max y1 y2)"
  by (simp add: normalize_roi_def min_def max_def)

text \<open>
  C8. The rectangle is order-independent: scoring with the two corners exchanged, or
  with the coordinates of one axis exchanged, gives the same result and the same new
  detector state as scoring with \<open>(x1, y1, x2, y2)\<close>.  In particular
  \<open>(500,400,100,100)\<close> and \<open>(100,100,500,400)\<close> normalize to the same rectangle.
\<close>

theorem C8_roi_order_independent:
  "detect_motion cv d frame (Some (x2, y2, x1, y1)) = detect_motion cv d frame (Some (x1, y1, x2, y2)) \<and>
   detect_motion cv d frame (Some (x2, y1, x1, y2)) = detect_motion cv d frame (Some (x1, y1, x2, y2)) \<and>
   detect_motion cv d frame (Some (x1, y2, x2, y1)) = detect_motion cv d frame (Some (x1, y1, x2, y2)) \<and>
   normalize_roi (x2, y2, x1, y1) = normalize_roi (x1, y1, x2, y2) \<and>
   normalize_roi (500, 400, 100, 100) = normalize_roi (100, 100, 500, 400) \<and>
   normalize_roi (100, 100, 500, 400) = (100, 100, 500, 400)"
proof -
  have a: "normalize_roi (x2, y2, x1, y1) = normalize_roi (x1, y1, x2, y2)"
    by (simp add: normalize_roi_min_max min.commute max.commute)
  have b: "normalize_roi (x2, y1, x1, y2) = normalize_roi (x1, y1, x2, y2)"
    by (simp add: normalize_roi_min_max min.commute max.commute)
  have c: "normalize_roi (x1, y2, x2, y1) = normalize_roi (x1, y1, x2, y2)"
    by (simp add: normalize_roi_min_max min.commute max.commute)
  have n: "normalize_roi (500, 400, 100, 100) = normalize_roi (100, 100, 500, 400)"
    "normalize_roi (100, 100, 500, 400) = (100, 100, 500, 400)"
    by (simp_all add: normalize_roi_def)
  show ?thesis
    using a b c n by (simp add: detect_motion_def)
qed

section \<open>Properties of the clip exporter\<close>

lemma py_int_floor: "0 \<le> x \<Longrightarrow> py_int x = \<lfloor>x\<rfloor>"
  by (simp add: py_int_def)

lemma write_loop_take:
  "write_loop frames_to_write frames_written frames written =
   written @ take (nat (frames_to_write - frames_written)) frames"
proof (induction frames arbitrary: frames_written written)
  case Nil
  show ?case by simp
next
  case (Cons frame rest)
  show ?case
  proof (cases "frames_written < frames_to_write")
    case True
    then have "nat (frames_to_write - frames_written) = Suc (nat (frames_to_write - (frames_written + 1)))"
      by simp
    then show ?thesis using True Cons.IH by simp
  next
    case False
    then show ?thesis by simp
  qed
qed

lemma export_clip_opened:
  assumes "is_opened (fs video_path)"
    and "output_name \<noteq> None \<or> prop_fps (fs video_path) \<noteq> 0"
  shows "export_clip mul fs p video_path start_frame end_frame output_name =
     Inr \<lparr>clip_start = actual_start mul (padding_before p) (prop_fps (fs video_path)) start_frame,
          clip_end = actual_end mul (padding_after p) (prop_fps (fs video_path))
                       (py_int (prop_frame_count (fs video_path))) end_frame,
          clip_fps = prop_fps (fs video_path),
          clip_size = (py_int (prop_width (fs video_path)), py_int (prop_height (fs video_path))),
          clip_frames =
            take (nat (actual_end mul (padding_after p) (prop_fps (fs video_path))
                         (py_int (prop_frame_count (fs video_path))) end_frame
                       - actual_start mul (padding_before p) (prop_fps (fs video_path)) start_frame + 1))
              (drop (nat (actual_start mul (padding_before p) (prop_fps (fs video_path)) start_frame))
                 (stream (fs video_path)))\<rparr>"
  using assms by (auto simp: export_clip_def Let_def write_loop_take seek_def)

lemma frames_written_count:
  "int (length (take (nat (e - a + 1)) (drop (nat a) frames))) =
   min (max 0 (e - a + 1)) (max 0 (int (length frames) - max 0 a))"
proof -
  have "length (take (nat (e - a + 1)) (drop (nat a) frames)) =
        min (nat (e - a + 1)) (length frames - nat a)"
    by simp
  also have "int \<dots> = min (max 0 (e - a + 1)) (max 0 (int (length frames) - max 0 a))"
    by (simp only: min_def max_def) (auto split: if_splits)
  finally show ?thesis .
qed

text \<open>
  The window follows the rounded product, not the exact one: 4.1 seconds of padding at
  30 frames per second are exactly 123 frames, but the double product \<open>4.1 * 30.0\<close> is
  just below 123, so the padding is 122 frames and a segment starting at frame 200 is
  exported from frame 78.
\<close>

lemma actual_start_rounded_product:
  assumes "122 \<le> mul (41 / 10) 30" and "mul (41 / 10) 30 < 123"
  shows "actual_start mul (41 / 10) 30 200 = 78"
proof -
  have "\<lfloor>mul (41 / 10) 30\<rfloor> = 122"
    using assms by (intro floor_unique) simp_all
  then show ?thesis using assms(1) by (simp add: actual_start_def py_int_def)
qed

text \<open>
  C3. For a segment with \<open>0 \<le> start \<le> end \<le> total_frames - 1\<close>, paddings
  \<open>\<ge> 0\<close> and a frame rate \<open>\<ge> 0\<close>, export computes
  \<open>actual_start = max(0, start - floor(padding_before * fps))\<close> and
  \<open>actual_end = min(total_frames - 1, end + floor(padding_after * fps))\<close>, where
  \<open>*\<close> is the float product as the code computes it, and
  \<open>0 \<le> actual_start \<le> actual_end \<le> total_frames - 1\<close>; these are the bounds of the
  clip that \<open>export_clip\<close> returns.  Of the float product only the sign rule is used:
  the product of two floats \<open>\<ge> 0\<close> is \<open>\<ge> 0\<close>, however it is rounded.
\<close>

theorem C3_padded_bounds:
  assumes "is_opened (fs video_path)"
    and "fps = prop_fps (fs video_path)"
    and "total_frames = py_int (prop_frame_count (fs video_path))"
    and "\<forall>x y. 0 \<le> x \<and> 0 \<le> y \<longrightarrow> 0 \<le> mul x y"
    and "0 \<le> fps"
    and "0 \<le> padding_before p" and "0 \<le> padding_after p"
    and "0 \<le> start_frame" and "start_frame \<le> end_frame" and "end_frame \<le> total_frames - 1"
  shows "actual_start mul (padding_before p) fps start_frame
           = max 0 (start_frame - \<lfloor>mul (padding_before p) fps\<rfloor>) \<and>
         actual_end mul (padding_after p) fps total_frames end_frame
           = min (total_frames - 1) (end_frame + \<lfloor>mul (padding_after p) fps\<rfloor>) \<and>
         0 \<le> actual_start mul (padding_before p) fps start_frame \<and>
         actual_start mul (padding_before p) fps start_frame
           \<le> actual_end mul (padding_after p) fps total_frames end_frame \<and>
         actual_end mul (padding_after p) fps total_frames end_frame \<le> total_frames - 1 \<and>
         (output_name \<noteq> None \<or> fps \<noteq> 0 \<longrightarrow>
            (\<exists>c. export_clip mul fs p video_path start_frame end_frame output_name = Inr c \<and>
                 clip_start c = actual_start mul (padding_before p) fps start_frame \<and>
                 clip_end c = actual_end mul (padding_after p) fps total_frames end_frame))"
proof -
  have b: "0 \<le> mul (padding_before p) fps" and a: "0 \<le> mul (padding_after p) fps"
    using assms(4-7) by blast+
  have fb: "py_int (mul (padding_before p) fps) = \<lfloor>mul (padding_before p) fps\<rfloor>"
    and fa: "py_int (mul (padding_after p) fps) = \<lfloor>mul (padding_after p) fps\<rfloor>"
    using a b by (simp_all add: py_int_floor)
  have nb: "0 \<le> \<lfloor>mul (padding_before p) fps\<rfloor>" and na: "0 \<le> \<lfloor>mul (padding_after p) fps\<rfloor>"
    using a b by simp_all
  have s: "actual_start mul (padding_before p) fps start_frame
           = max 0 (start_frame - \<lfloor>mul (padding_before p) fps\<rfloor>)"
    by (simp add: actual_start_def fb)
  have e: "actual_end mul (padding_after p) fps total_frames end_frame
           = min (total_frames - 1) (end_frame + \<lfloor>mul (padding_after p) fps\<rfloor>)"
    by (simp add: actual_end_def fa)
  have r: "0 \<le> actual_start mul (padding_before p) fps start_frame \<and>
         actual_start mul (padding_before p) fps start_frame
           \<le> actual_end mul (padding_after p) fps total_frames end_frame \<and>
         actual_end mul (padding_after p) fps total_frames end_frame \<le> total_frames - 1"
    unfolding s e using nb na assms(8-10) by linarith
  have x: "output_name \<noteq> None \<or> fps \<noteq> 0 \<longrightarrow>
            (\<exists>c. export_clip mul fs p video_path start_frame end_frame output_name = Inr c \<and>
                 clip_start c = actual_start mul (padding_before p) fps start_frame \<and>
                 clip_end c = actual_end mul (padding_after p) fps total_frames end_frame)"
  proof
    assume "output_name \<noteq> None \<or> fps \<noteq> 0"
    then have "output_name \<noteq> None \<or> prop_fps (fs video_path) \<noteq> 0"
      using assms(2) by simp
    from export_clip_opened [where fs = fs and video_path = video_path and p = p and start_frame = start_frame
        and end_frame = end_frame and output_name = output_name and mul = mul, OF assms(1) this]
    show "\<exists>c. export_clip mul fs p video_path start_frame end_frame output_name = Inr c \<and>
                 clip_start c = actual_start mul (padding_before p) fps start_frame \<and>
                 clip_end c = actual_end mul (padding_after p) fps total_frames end_frame"
      using assms(2,3) by simp
  qed
  show ?thesis using s e r x by blast
qed

text \<open>
  C4. For a padded window \<open>[actual_start, actual_end]\<close> the number of frames that
  export writes is \<open>min(actual_end - actual_start + 1, frames available from actual_start
  to the end of the stream)\<close>; a stream that ends early is not an error, export still
  returns a clip, which is shorter.
\<close>

theorem C4_frames_written:
  assumes "is_opened (fs video_path)"
    and "output_name \<noteq> None \<or> prop_fps (fs video_path) \<noteq> 0"
    and "a = actual_start mul (padding_before p) (prop_fps (fs video_path)) start_frame"
    and "e = actual_end mul (padding_after p) (prop_fps (fs video_path))
               (py_int (prop_frame_count (fs video_path))) end_frame"
    and "a \<le> e"
  shows "\<exists>c. export_clip mul fs p video_path start_frame end_frame output_name = Inr c \<and>
             clip_frames c = take (nat (e - a + 1)) (drop (nat a) (stream (fs video_path))) \<and>
             int (length (clip_frames c)) =
               min (e - a + 1) (max 0 (int (length (stream (fs video_path))) - a))"
proof -
  have a0: "0 \<le> a" using assms(3) by (simp add: actual_start_def Let_def)
  have "int (length (take (nat (e - a + 1)) (drop (nat a) (stream (fs video_path))))) =
        min (e - a + 1) (max 0 (int (length (stream (fs video_path))) - a))"
    using a0 assms(5) by (simp add: frames_written_count)
  then show ?thesis
    using export_clip_opened [where fs = fs and video_path = video_path and p = p and start_frame = start_frame
        and end_frame = end_frame and output_name = output_name and mul = mul, OF assms(1,2)] assms(3,4)
    by simp
qed

text \<open>The definitions of the worked example, for evaluating it.\<close>

lemmas demo_defs = demo_gray_def demo_mask_def demo_contours_def demo_mul_def demo_cv_def
  flat_def demo_video_def early_video_def unopened_video_def demo_fs_def demo_detector_def
  demo_processor_def

text \<open>
  C3 at the segment \<open>(2, 3)\<close> of the example file (10 frames per second, 8 frames
  reported, 2 seconds of padding on each side, so 20 frames of padding): the window is
  \<open>[0, 7]\<close>.
\<close>

theorem C3_witness:
  "is_opened (demo_fs ''a.mp4'') \<and> (0::real) \<le> 10 \<and>
   0 \<le> padding_before demo_processor \<and> 0 \<le> padding_after demo_processor \<and>
   (0::int) \<le> 2 \<and> (2::int) \<le> 3 \<and> (3::int) \<le> 8 - 1 \<and>
   demo_mul (padding_before demo_processor) 10 = 20 \<and>
   actual_start demo_mul (padding_before demo_processor) 10 2 = 0 \<and>
   actual_end demo_mul (padding_after demo_processor) 10 8 3 = 7 \<and>
   (\<exists>c. export_clip demo_mul demo_fs demo_processor ''a.mp4'' 2 3 None = Inr c \<and>
        clip_start c = 0 \<and> clip_end c = 7)"
proof -
  have o: "is_opened (demo_fs ''a.mp4'')" by (simp add: demo_defs)
  have f: "(10::real) = prop_fps (demo_fs ''a.mp4'')" by (simp add: demo_defs)
  have t: "(8::int) = py_int (prop_frame_count (demo_fs ''a.mp4''))"
    by (simp add: demo_defs py_int_def)
  have sg: "\<forall>x y. 0 \<le> x \<and> 0 \<le> y \<longrightarrow> 0 \<le> demo_mul x y"
    by (simp add: demo_mul_def)
  have p: "0 \<le> padding_before demo_processor" "0 \<le> padding_after demo_processor"
    by (simp_all add: demo_defs)
  have n: "(0::real) \<le> 10" "(0::int) \<le> 2" "(2::int) \<le> 3" "(3::int) \<le> 8 - 1"
    by simp_all
  have nz: "(10::real) \<noteq> 0" by simp
  have s: "actual_start demo_mul (padding_before demo_processor) 10 2 = 0"
    "actual_end demo_mul (padding_after demo_processor) 10 8 3 = 7"
    by (simp_all add: actual_start_def actual_end_def py_int_def demo_defs)
  have "\<exists>c. export_clip demo_mul demo_fs demo_processor ''a.mp4'' 2 3 None = Inr c \<and>
        clip_start c = actual_start demo_mul (padding_before demo_processor) 10 2 \<and>
        clip_end c = actual_end demo_mul (padding_after demo_processor) 10 8 3"
    using C3_padded_bounds [where fs = demo_fs and video_path = "''a.mp4''" and fps = 10
        and total_frames = 8 and p = demo_processor and start_frame = 2 and end_frame = 3
        and output_name = None and mul = demo_mul, OF o f t sg n(1) p n(2,3,4)] nz
    by blast
  moreover have "demo_mul (padding_before demo_processor) 10 = 20"
    by (simp add: demo_defs)
  ultimately show ?thesis using o p s by simp
qed

text \<open>
  C4 on the same input: 8 frames are requested, the stream delivers only 5, and the clip
  holds 5 frames.
\<close>

theorem C4_witness:
  "is_opened (demo_fs ''a.mp4'') \<and> prop_fps (demo_fs ''a.mp4'') \<noteq> 0 \<and>
   actual_start demo_mul (padding_before demo_processor) (prop_fps (demo_fs ''a.mp4'')) 2 = 0 \<and>
   actual_end demo_mul (padding_after demo_processor) (prop_fps (demo_fs ''a.mp4''))
     (py_int (prop_frame_count (demo_fs ''a.mp4''))) 3 = 7 \<and>
   (\<exists>c. export_clip demo_mul demo_fs demo_processor ''a.mp4'' 2 3 None = Inr c \<and>
        int (length (clip_frames c)) = min (7 - 0 + 1) (max 0 (5 - 0)) \<and>
        length (clip_frames c) = 5)"
proof -
  have o: "is_opened (demo_fs ''a.mp4'')" by (simp add: demo_defs)
  have f: "None \<noteq> (None :: string option) \<or> prop_fps (demo_fs ''a.mp4'') \<noteq> 0"
    by (simp add: demo_defs)
  have a: "(0::int) = actual_start demo_mul (padding_before demo_processor) (prop_fps (demo_fs ''a.mp4'')) 2"
    by (simp add: actual_start_def py_int_def demo_defs)
  have e: "(7::int) = actual_end demo_mul (padding_after demo_processor) (prop_fps (demo_fs ''a.mp4''))
     (py_int (prop_frame_count (demo_fs ''a.mp4''))) 3"
    by (simp add: actual_end_def py_int_def demo_defs)
  have l: "int (length (stream (demo_fs ''a.mp4''))) = 5" by (simp add: demo_defs)
  have "\<exists>c. export_clip demo_mul demo_fs demo_processor ''a.mp4'' 2 3 None = Inr c \<and>
        clip_frames c = take (nat (7 - 0 + 1)) (drop (nat 0) (stream (demo_fs ''a.mp4''))) \<and>
        int (length (clip_frames c)) =
          min (7 - 0 + 1) (max 0 (int (length (stream (demo_fs ''a.mp4''))) - 0))"
    using C4_frames_written [where fs = demo_fs and video_path = "''a.mp4''" and a = 0 and e = 7
        and p = demo_processor and start_frame = 2 and end_frame = 3
        and output_name = None and mul = demo_mul, OF o f a e]
    by simp
  then obtain c where c: "export_clip demo_mul demo_fs demo_processor ''a.mp4'' 2 3 None = Inr c"
    "int (length (clip_frames c)) =
          min (7 - 0 + 1) (max 0 (int (length (stream (demo_fs ''a.mp4''))) - 0))"
    by blast
  then have "length (clip_frames c) = 5" using l by simp
  then show ?thesis using o f a [symmetric] e [symmetric] c l by auto
qed

section \<open>Properties of the segment tracker\<close>

lemma track_sample_close:
  "current_motion_start st = Some s \<Longrightarrow>
   track_sample False st =
     st\<lparr>motion_ranges := motion_ranges st @ [(s, frame_count st - 1)],
        current_motion_start := None\<rparr>"
  by (simp add: track_sample_def)

lemma track_sample_frame_count: "frame_count (track_sample b st) = frame_count st"
  by (simp add: track_sample_def split: option.splits)

lemma sample_frame_frame_count: "frame_count (sample_frame cv roi k frame st) = frame_count st"
  by (simp add: sample_frame_def track_sample_frame_count split: prod.splits)

lemma track_sample_inv:
  assumes "tracker_inv k st" and "frame_count st mod k = 0"
  shows "tracker_inv k ((track_sample b st)\<lparr>frame_count := frame_count st + 1\<rparr>)"
proof (cases "current_motion_start st")
  case None
  then show ?thesis
    using assms by (cases b) (auto simp: tracker_inv_def track_sample_def list_all_iff)
next
  case (Some s)
  then show ?thesis
    using assms by (cases b) (auto simp: tracker_inv_def track_sample_def list_all_iff)
qed

lemma tracker_inv_det: "tracker_inv k (st\<lparr>det := d\<rparr>) = tracker_inv k st"
  by (simp add: tracker_inv_def split: option.splits)

lemma tracker_inv_skip:
  "tracker_inv k st \<Longrightarrow> tracker_inv k (st\<lparr>frame_count := frame_count st + 1\<rparr>)"
  by (auto simp: tracker_inv_def list_all_iff split: option.splits)

lemma sample_frame_inv:
  assumes "tracker_inv k st"
  shows "tracker_inv k ((sample_frame cv roi k frame st)
           \<lparr>frame_count := frame_count (sample_frame cv roi k frame st) + 1\<rparr>)"
proof (cases "frame_count st mod k = 0")
  case True
  obtain b pct d' where dm: "detect_motion cv (det st) frame (Some roi) = ((b, pct), d')"
    by (metis surj_pair)
  have i: "tracker_inv k (st\<lparr>det := d'\<rparr>)" using assms by (simp add: tracker_inv_det)
  have m: "frame_count (st\<lparr>det := d'\<rparr>) mod k = 0" using True by simp
  from track_sample_inv [OF i m, of b] show ?thesis
    using True dm by (simp add: sample_frame_def track_sample_frame_count)
next
  case False
  then show ?thesis
    using tracker_inv_skip [OF assms] by (simp add: sample_frame_def)
qed

lemma analysis_loop_inv:
  "tracker_inv k st \<Longrightarrow>
   analysis_loop cv roi k sc pc tot frames st = Inr st' \<Longrightarrow>
   tracker_inv k st' \<and> frame_count st' \<le> frame_count st + int (length frames)"
proof (induction frames arbitrary: st)
  case Nil
  then show ?case by simp
next
  case (Cons frame rest)
  let ?st2 = "(sample_frame cv roi k frame st)
           \<lparr>frame_count := frame_count (sample_frame cv roi k frame st) + 1\<rparr>"
  show ?case
  proof (cases "case sc of None \<Rightarrow> False | Some c \<Rightarrow> c (frame_count st)")
    case True
    then have "st' = st" using Cons.prems(2) by simp
    then show ?thesis using Cons.prems(1) by simp
  next
    case False
    have i2: "tracker_inv k ?st2" using Cons.prems(1) by (rule sample_frame_inv)
    have fc: "frame_count ?st2 = frame_count st + 1"
      by (simp add: sample_frame_frame_count)
    have "analysis_loop cv roi k sc pc tot rest ?st2 = Inr st'"
      using Cons.prems(2) False by (simp split: if_splits option.splits)
    from Cons.IH [OF i2 this] show ?thesis using fc by simp
  qed
qed

lemma sample_frame_initial:
  "sample_frame cv roi k frame (initial_analysis d) =
     (initial_analysis d)\<lparr>det := snd (detect_motion cv (reset d) frame (Some roi))\<rparr>"
proof -
  obtain b pct d' where dm: "detect_motion cv (reset d) frame (Some roi) = ((b, pct), d')"
    by (metis surj_pair)
  have "fst (detect_motion cv (reset d) frame (Some roi)) = (False, 0)"
    by (rule detect_motion_after_reset)
  then have "b = False" using dm by simp
  then show ?thesis
    using dm by (simp add: sample_frame_def initial_analysis_def track_sample_def)
qed

lemma analysis_loop_initial:
  assumes "analysis_loop cv roi k sc pc tot frames (initial_analysis d) = Inr st'"
  shows "(motion_ranges st' = [] \<and> current_motion_start st' = None \<and> frame_count st' = 0) \<or>
         (tracker_inv k st' \<and> frame_count st' \<le> int (length frames))"
proof (cases frames)
  case Nil
  then show ?thesis using assms by (auto simp: initial_analysis_def)
next
  case (Cons frame rest)
  let ?st0 = "initial_analysis d"
  let ?st2 = "(sample_frame cv roi k frame ?st0)
           \<lparr>frame_count := frame_count (sample_frame cv roi k frame ?st0) + 1\<rparr>"
  show ?thesis
  proof (cases "case sc of None \<Rightarrow> False | Some c \<Rightarrow> c (frame_count ?st0)")
    case True
    then have "st' = ?st0" using assms Cons by simp
    then show ?thesis by (simp add: initial_analysis_def)
  next
    case False
    have i2: "tracker_inv k ?st2"
      by (simp add: sample_frame_initial) (simp add: tracker_inv_def initial_analysis_def)
    have fc: "frame_count ?st2 = 1"
      by (simp add: sample_frame_frame_count) (simp add: initial_analysis_def)
    have "analysis_loop cv roi k sc pc tot rest ?st2 = Inr st'"
      using assms Cons False by (simp split: if_splits option.splits)
    from analysis_loop_inv [OF i2 this] show ?thesis using fc Cons by simp
  qed
qed

lemma sweep_wellformed:
  "\<forall>r \<in> set (cur # rest). fst r \<le> snd r \<Longrightarrow> \<forall>m \<in> set (sweep g cur rest). fst m \<le> snd m"
proof (induction rest arbitrary: cur)
  case Nil
  then show ?case by simp
next
  case (Cons x rest)
  show ?case
  proof (cases "fst x - snd cur \<le> g")
    case True
    have "\<forall>r \<in> set ((fst cur, max (snd cur) (snd x)) # rest). fst r \<le> snd r"
      using Cons.prems by auto
    from Cons.IH [OF this] show ?thesis using True by simp
  next
    case False
    have "\<forall>r \<in> set (x # rest). fst r \<le> snd r" using Cons.prems by auto
    from Cons.IH [OF this] show ?thesis using False Cons.prems by simp
  qed
qed

lemma merge_ranges_bounds:
  assumes "m \<in> set (merge_ranges ranges fps gs)"
  shows "fst m \<in> fst ` set ranges" and "snd m \<in> snd ` set ranges"
    and "\<forall>r \<in> set ranges. fst r \<le> snd r \<Longrightarrow> fst m \<le> snd m"
proof -
  have ne: "ranges \<noteq> []" using assms by (auto simp: merge_ranges_def)
  let ?s = "sort_key fst ranges"
  have "?s \<noteq> []" using ne by (metis length_sort length_0_conv)
  then have st: "set (hd ?s # tl ?s) = set ranges" by simp
  have m: "m \<in> set (sweep (gap_frames fps gs) (hd ?s) (tl ?s))"
    using assms ne by (simp add: merge_ranges_sweep)
  show "fst m \<in> fst ` set ranges"
    using m sweep_starts [of "gap_frames fps gs" "hd ?s" "tl ?s"] unfolding st by blast
  show "snd m \<in> snd ` set ranges"
    using m sweep_ends [of "gap_frames fps gs" "hd ?s" "tl ?s"] unfolding st by blast
  show "fst m \<le> snd m" if "\<forall>r \<in> set ranges. fst r \<le> snd r"
  proof -
    have "\<forall>r \<in> set (hd ?s # tl ?s). fst r \<le> snd r" using that unfolding st .
    from sweep_wellformed [OF this] show ?thesis using m by blast
  qed
qed

lemma close_last_inv:
  assumes "tracker_inv k st" and "seg \<in> set (close_last st)"
  shows "0 < fst seg \<and> fst seg mod k = 0 \<and> fst seg \<le> snd seg \<and>
         ((snd seg + 1) mod k = 0 \<or> snd seg + 1 = frame_count st) \<and> snd seg < frame_count st"
  using assms
  by (auto simp: tracker_inv_def close_last_def list_all_iff split: option.splits)

lemma positive_multiple: "1 \<le> (k::int) \<Longrightarrow> 0 < s \<Longrightarrow> s mod k = 0 \<Longrightarrow> k \<le> s"
  by (metis dvd_eq_mod_eq_0 zdvd_imp_le)

lemma analysis_segments:
  assumes "analyze_video_for_motion cv fs d video_path roi k gap pc sc = Inr segs"
  shows "\<exists>n. 0 \<le> n \<and> n \<le> int (length (stream (fs video_path))) \<and>
           (\<forall>seg \<in> set segs.
              0 < fst seg \<and> fst seg mod k = 0 \<and> fst seg \<le> snd seg \<and>
              ((snd seg + 1) mod k = 0 \<or> snd seg + 1 = n) \<and> snd seg < n)"
proof -
  let ?cap = "fs video_path"
  have op: "is_opened ?cap"
    using assms by (auto simp: analyze_video_for_motion_def Let_def split: if_splits)
  obtain st where
    loop: "analysis_loop cv roi k sc pc (py_int (prop_frame_count ?cap)) (stream ?cap)
             (initial_analysis d) = Inr st"
    and segs: "segs = merge_ranges (close_last st) (prop_fps ?cap) gap"
    using assms op by (auto simp: analyze_video_for_motion_def Let_def split: sum.splits)
  from analysis_loop_initial [OF loop]
  show ?thesis
  proof
    assume "motion_ranges st = [] \<and> current_motion_start st = None \<and> frame_count st = 0"
    then have "segs = []" using segs by (simp add: close_last_def merge_ranges_def)
    then show ?thesis by auto
  next
    assume inv: "tracker_inv k st \<and> frame_count st \<le> int (length (stream ?cap))"
    let ?P = "\<lambda>seg. 0 < fst seg \<and> fst seg mod k = 0 \<and> fst seg \<le> snd seg \<and>
         ((snd seg + 1) mod k = 0 \<or> snd seg + 1 = frame_count st) \<and> snd seg < frame_count st"
    have raw: "\<forall>r \<in> set (close_last st). ?P r"
      using close_last_inv [of k st] inv by blast
    have "\<forall>seg \<in> set segs. ?P seg"
    proof
      fix seg assume "seg \<in> set segs"
      then have m: "seg \<in> set (merge_ranges (close_last st) (prop_fps ?cap) gap)"
        using segs by simp
      obtain r1 where r1: "r1 \<in> set (close_last st)" "fst seg = fst r1"
        using merge_ranges_bounds(1) [OF m] by auto
      obtain r2 where r2: "r2 \<in> set (close_last st)" "snd seg = snd r2"
        using merge_ranges_bounds(2) [OF m] by auto
      have "fst seg \<le> snd seg"
        using merge_ranges_bounds(3) [OF m] raw by blast
      then show "?P seg" using raw r1 r2 by metis
    qed
    moreover have "0 \<le> frame_count st" using inv by (simp add: tracker_inv_def)
    ultimately show ?thesis using inv by blast
  qed
qed

lemma analysis_loop_count:
  "analysis_loop cv roi k None pc tot frames st = Inr st' \<Longrightarrow>
   frame_count st' = frame_count st + int (length frames)"
proof (induction frames arbitrary: st)
  case Nil
  then show ?case by simp
next
  case (Cons frame rest)
  let ?st2 = "(sample_frame cv roi k frame st)
           \<lparr>frame_count := frame_count (sample_frame cv roi k frame st) + 1\<rparr>"
  have fc: "frame_count ?st2 = frame_count st + 1"
    by (simp add: sample_frame_frame_count)
  have "analysis_loop cv roi k None pc tot rest ?st2 = Inr st'"
    using Cons.prems by (simp split: if_splits option.splits)
  from Cons.IH [OF this] show ?case using fc by simp
qed

lemma analysis_result:
  assumes "analyze_video_for_motion cv fs d video_path roi k gap pc sc = Inr segs"
  shows "\<exists>st'. analysis_loop cv roi k sc pc (py_int (prop_frame_count (fs video_path)))
               (stream (fs video_path)) (initial_analysis d) = Inr st' \<and>
           segs = merge_ranges (close_last st') (prop_fps (fs video_path)) gap \<and>
           0 \<le> frame_count st' \<and>
           frame_count st' \<le> int (length (stream (fs video_path))) \<and>
           (sc = None \<longrightarrow> frame_count st' = int (length (stream (fs video_path)))) \<and>
           (\<forall>seg \<in> set segs.
              0 < fst seg \<and> fst seg mod k = 0 \<and> fst seg \<le> snd seg \<and>
              ((snd seg + 1) mod k = 0 \<or> snd seg + 1 = frame_count st') \<and>
              snd seg < frame_count st')"
proof -
  let ?cap = "fs video_path"
  have op: "is_opened ?cap"
    using assms by (auto simp: analyze_video_for_motion_def Let_def split: if_splits)
  obtain st where
    loop: "analysis_loop cv roi k sc pc (py_int (prop_frame_count ?cap)) (stream ?cap)
             (initial_analysis d) = Inr st"
    and segs: "segs = merge_ranges (close_last st) (prop_fps ?cap) gap"
    using assms op by (auto simp: analyze_video_for_motion_def Let_def split: sum.splits)
  have cnt: "sc = None \<longrightarrow> frame_count st = int (length (stream ?cap))"
  proof
    assume "sc = None"
    then have "frame_count st = frame_count (initial_analysis d) + int (length (stream ?cap))"
      using loop analysis_loop_count by blast
    then show "frame_count st = int (length (stream ?cap))"
      by (simp add: initial_analysis_def)
  qed
  let ?P = "\<lambda>seg. 0 < fst seg \<and> fst seg mod k = 0 \<and> fst seg \<le> snd seg \<and>
         ((snd seg + 1) mod k = 0 \<or> snd seg + 1 = frame_count st) \<and> snd seg < frame_count st"
  from analysis_loop_initial [OF loop]
  have rest: "0 \<le> frame_count st \<and> frame_count st \<le> int (length (stream ?cap)) \<and>
      (\<forall>seg \<in> set segs. ?P seg)"
  proof
    assume z: "motion_ranges st = [] \<and> current_motion_start st = None \<and> frame_count st = 0"
    then have "segs = []" using segs by (simp add: close_last_def merge_ranges_def)
    then show ?thesis using z by simp
  next
    assume inv: "tracker_inv k st \<and> frame_count st \<le> int (length (stream ?cap))"
    have raw: "\<forall>r \<in> set (close_last st). ?P r"
      using close_last_inv [of k st] inv by blast
    have "\<forall>seg \<in> set segs. ?P seg"
    proof
      fix seg assume "seg \<in> set segs"
      then have m: "seg \<in> set (merge_ranges (close_last st) (prop_fps ?cap) gap)"
        using segs by simp
      obtain r1 where r1: "r1 \<in> set (close_last st)" "fst seg = fst r1"
        using merge_ranges_bounds(1) [OF m] by auto
      obtain r2 where r2: "r2 \<in> set (close_last st)" "snd seg = snd r2"
        using merge_ranges_bounds(2) [OF m] by auto
      have "fst seg \<le> snd seg"
        using merge_ranges_bounds(3) [OF m] raw by blast
      then show "?P seg" using raw r1 r2 by metis
    qed
    moreover have "0 \<le> frame_count st" using inv by (simp add: tracker_inv_def)
    ultimately show ?thesis using inv by blast
  qed
  show ?thesis
    by (rule exI [of _ st]) (use loop segs cnt rest in blast)
qed

lemma sample_frame_degenerate:
  assumes "roi_degenerate (rows (gray_blur cv frame)) (cols (gray_blur cv frame)) roi"
    and "motion_ranges st = []" and "current_motion_start st = None"
  shows "motion_ranges (sample_frame cv roi k frame st) = [] \<and>
         current_motion_start (sample_frame cv roi k frame st) = None"
  using assms
  by (simp add: sample_frame_def detect_motion_degenerate track_sample_def)

lemma analysis_loop_degenerate:
  "\<forall>f \<in> set frames. roi_degenerate (rows (gray_blur cv f)) (cols (gray_blur cv f)) roi \<Longrightarrow>
   motion_ranges st = [] \<Longrightarrow> current_motion_start st = None \<Longrightarrow>
   analysis_loop cv roi k sc pc tot frames st = Inr st' \<Longrightarrow>
   motion_ranges st' = [] \<and> current_motion_start st' = None"
proof (induction frames arbitrary: st)
  case Nil
  then show ?case by simp
next
  case (Cons frame rest)
  let ?st2 = "(sample_frame cv roi k frame st)
           \<lparr>frame_count := frame_count (sample_frame cv roi k frame st) + 1\<rparr>"
  show ?case
  proof (cases "case sc of None \<Rightarrow> False | Some c \<Rightarrow> c (frame_count st)")
    case True
    then have "st' = st" using Cons.prems(4) by simp
    then show ?thesis using Cons.prems(2,3) by simp
  next
    case False
    have dg: "roi_degenerate (rows (gray_blur cv frame)) (cols (gray_blur cv frame)) roi"
      using Cons.prems(1) by simp
    have e: "motion_ranges ?st2 = []" "current_motion_start ?st2 = None"
      using sample_frame_degenerate [OF dg Cons.prems(2,3), of k] by simp_all
    have r: "\<forall>f \<in> set rest. roi_degenerate (rows (gray_blur cv f)) (cols (gray_blur cv f)) roi"
      using Cons.prems(1) by simp
    have "analysis_loop cv roi k sc pc tot rest ?st2 = Inr st'"
      using Cons.prems(4) False by (simp split: if_splits option.splits)
    from Cons.IH [OF r e this] show ?thesis .
  qed
qed

lemma analysis_loop_returns:
  "k \<noteq> 0 \<Longrightarrow> \<forall>cb n. pc = Some cb \<longrightarrow> cb n tot = None \<Longrightarrow>
   \<exists>st'. analysis_loop cv roi k sc pc tot frames st = Inr st'"
proof (induction frames arbitrary: st)
  case Nil
  show ?case by simp
next
  case (Cons frame rest)
  let ?st2 = "(sample_frame cv roi k frame st)
           \<lparr>frame_count := frame_count (sample_frame cv roi k frame st) + 1\<rparr>"
  have "(case pc of None \<Rightarrow> None | Some cb \<Rightarrow> cb (frame_count ?st2) tot) = None"
    using Cons.prems(2) by (cases pc) auto
  then show ?case
    using Cons.IH [OF Cons.prems, of ?st2] Cons.prems(1) by simp
qed

lemma analysis_returns:
  assumes "is_opened (fs video_path)" and "k \<noteq> 0"
    and "\<forall>cb n. pc = Some cb \<longrightarrow> cb n (py_int (prop_frame_count (fs video_path))) = None"
  shows "\<exists>segs. analyze_video_for_motion cv fs d video_path roi k gap pc sc = Inr segs"
proof -
  obtain st' where "analysis_loop cv roi k sc pc (py_int (prop_frame_count (fs video_path)))
      (stream (fs video_path)) (initial_analysis d) = Inr st'"
    using analysis_loop_returns [OF assms(2,3)] by blast
  then show ?thesis
    using assms(1) by (simp add: analyze_video_for_motion_def Let_def)
qed

lemma analysis_degenerate:
  assumes "\<forall>f \<in> set (stream (fs video_path)).
             roi_degenerate (rows (gray_blur cv f)) (cols (gray_blur cv f)) roi"
    and "analyze_video_for_motion cv fs d video_path roi k gap pc sc = Inr segs"
  shows "segs = []"
proof -
  let ?cap = "fs video_path"
  have op: "is_opened ?cap"
    using assms(2) by (auto simp: analyze_video_for_motion_def Let_def split: if_splits)
  obtain st where
    loop: "analysis_loop cv roi k sc pc (py_int (prop_frame_count ?cap)) (stream ?cap)
             (initial_analysis d) = Inr st"
    and segs: "segs = merge_ranges (close_last st) (prop_fps ?cap) gap"
    using assms(2) op by (auto simp: analyze_video_for_motion_def Let_def split: sum.splits)
  have "motion_ranges st = [] \<and> current_motion_start st = None"
    using analysis_loop_degenerate [OF assms(1) _ _ loop] by (simp add: initial_analysis_def)
  then show ?thesis using segs by (simp add: close_last_def merge_ranges_def)
qed

lemma process_video_degenerate:
  assumes "\<forall>f \<in> set (stream (fs video_path)).
             roi_degenerate (rows (gray_blur cv f)) (cols (gray_blur cv f)) roi"
    and "process_video cv fs p video_path roi has_callback = Inr clips"
  shows "clips = []"
proof (cases "stop_requested p")
  case True
  then show ?thesis using assms(2) by (simp add: process_video_def)
next
  case False
  let ?a = "analyze_video_for_motion cv fs (motion_detector p) video_path roi FRAME_SKIP
                (merge_gap p) (Some (analysis_progress has_callback))
                (Some (\<lambda>n. stop_requested p))"
  obtain segs where a: "?a = Inr segs"
    using assms(2) False by (cases ?a) (auto simp: process_video_def)
  have "segs = []" using analysis_degenerate [OF assms(1) a] .
  then show ?thesis using assms(2) False a by (simp add: process_video_def)
qed

lemma process_video_returns_degenerate:
  assumes "\<forall>f \<in> set (stream (fs video_path)).
             roi_degenerate (rows (gray_blur cv f)) (cols (gray_blur cv f)) roi"
    and "is_opened (fs video_path)"
    and "py_int (prop_frame_count (fs video_path)) \<noteq> 0"
  shows "process_video cv fs p video_path roi has_callback = Inr []"
proof (cases "stop_requested p")
  case True
  then show ?thesis by (simp add: process_video_def)
next
  case False
  let ?a = "analyze_video_for_motion cv fs (motion_detector p) video_path roi FRAME_SKIP
                (merge_gap p) (Some (analysis_progress has_callback))
                (Some (\<lambda>n. stop_requested p))"
  have "\<forall>cb n. Some (analysis_progress has_callback) = Some cb \<longrightarrow>
          cb n (py_int (prop_frame_count (fs video_path))) = None"
    using assms(3) by (auto simp: analysis_progress_def)
  moreover have "FRAME_SKIP \<noteq> 0" by (simp add: FRAME_SKIP_def)
  ultimately have "\<exists>segs. ?a = Inr segs"
    using assms(2)
      analysis_returns [where fs = fs and video_path = video_path and k = FRAME_SKIP
        and pc = "Some (analysis_progress has_callback)" and cv = cv
        and d = "motion_detector p" and roi = roi and gap = "merge_gap p"
        and sc = "Some (\<lambda>n. stop_requested p)"]
    by blast
  then obtain segs where a: "?a = Inr segs" by blast
  have "segs = []" using analysis_degenerate [OF assms(1) a] .
  then show ?thesis using False a by (simp add: process_video_def)
qed

section \<open>Properties of the orchestration\<close>

lemma process_videos_loop_lookup:
  "\<not> stop_requested p \<Longrightarrow>
   process_videos_loop cv fs p roi video_files results video_path =
     (if video_path \<in> set video_files
      then Some (case process_video cv fs p video_path roi True of
                   Inr clips \<Rightarrow> clips | Inl e \<Rightarrow> [])
      else results video_path)"
  by (induction video_files arbitrary: results) auto

lemma process_all_videos_lookup:
  "\<not> stop_requested p \<Longrightarrow>
   process_all_videos cv fs p roi video_files video_path =
     (if video_path \<in> set video_files
      then Some (case process_video cv fs p video_path roi True of
                   Inr clips \<Rightarrow> clips | Inl e \<Rightarrow> [])
      else None)"
  by (simp add: process_all_videos_def process_videos_loop_lookup)

lemma process_video_unopened:
  "\<not> stop_requested p \<Longrightarrow> \<not> is_opened (fs video_path) \<Longrightarrow>
   process_video cv fs p video_path roi has_callback =
     Inl (ValueError (''Could not open video: '' @ video_path))"
  by (simp add: process_video_def analyze_video_for_motion_def)

section \<open>Claims about the tracker, the scorer and the batch loop\<close>

text \<open>
  C2, as the code has it.  When the tracker is active and the sampled frame with index
  \<open>frame_count\<close> reports no motion, the segment emitted is
  \<open>(open_start, frame_count - 1)\<close>: it ends at the source frame just before the current
  sampled frame, not at the previous sampled frame.  Consequently, for every
  \<open>frame_skip \<ge> 1\<close>, every start of a returned segment is a sampled-frame index, and
  every end is one less than a sampled-frame index or the index of the last frame read.
  The number of frames read is the value of \<open>frame_count\<close> when the loop ends; it is
  the length of the stream when there is no stop check.  For \<open>frame_skip = 1\<close> both
  boundaries are sampled-frame indices.
\<close>

theorem C2_segment_boundaries:
  "(current_motion_start st = Some s \<longrightarrow>
      track_sample False st =
        st\<lparr>motion_ranges := motion_ranges st @ [(s, frame_count st - 1)],
           current_motion_start := None\<rparr>) \<and>
   (1 \<le> frame_skip \<and>
    analyze_video_for_motion cv fs d video_path roi frame_skip gap pc sc = Inr segs \<longrightarrow>
      (\<exists>final.
         analysis_loop cv roi frame_skip sc pc (py_int (prop_frame_count (fs video_path)))
           (stream (fs video_path)) (initial_analysis d) = Inr final \<and>
         segs = merge_ranges (close_last final) (prop_fps (fs video_path)) gap \<and>
         0 \<le> frame_count final \<and>
         frame_count final \<le> int (length (stream (fs video_path))) \<and>
         (sc = None \<longrightarrow> frame_count final = int (length (stream (fs video_path)))) \<and>
         (\<forall>seg \<in> set segs.
            sampled_index frame_skip (fst seg) \<and> fst seg \<le> snd seg \<and>
            snd seg < frame_count final \<and>
            (sampled_index frame_skip (snd seg + 1) \<or> snd seg = frame_count final - 1))) \<and>
      (frame_skip = 1 \<longrightarrow>
         (\<forall>seg \<in> set segs. sampled_index 1 (fst seg) \<and> sampled_index 1 (snd seg))))"
proof -
  have a: "current_motion_start st = Some s \<longrightarrow>
      track_sample False st =
        st\<lparr>motion_ranges := motion_ranges st @ [(s, frame_count st - 1)],
           current_motion_start := None\<rparr>"
    by (simp add: track_sample_close)
  have b: "1 \<le> frame_skip \<and>
    analyze_video_for_motion cv fs d video_path roi frame_skip gap pc sc = Inr segs \<longrightarrow>
      (\<exists>final.
         analysis_loop cv roi frame_skip sc pc (py_int (prop_frame_count (fs video_path)))
           (stream (fs video_path)) (initial_analysis d) = Inr final \<and>
         segs = merge_ranges (close_last final) (prop_fps (fs video_path)) gap \<and>
         0 \<le> frame_count final \<and>
         frame_count final \<le> int (length (stream (fs video_path))) \<and>
         (sc = None \<longrightarrow> frame_count final = int (length (stream (fs video_path)))) \<and>
         (\<forall>seg \<in> set segs.
            sampled_index frame_skip (fst seg) \<and> fst seg \<le> snd seg \<and>
            snd seg < frame_count final \<and>
            (sampled_index frame_skip (snd seg + 1) \<or> snd seg = frame_count final - 1))) \<and>
      (frame_skip = 1 \<longrightarrow>
         (\<forall>seg \<in> set segs. sampled_index 1 (fst seg) \<and> sampled_index 1 (snd seg)))"
  proof
    assume h: "1 \<le> frame_skip \<and>
      analyze_video_for_motion cv fs d video_path roi frame_skip gap pc sc = Inr segs"
    have r: "analyze_video_for_motion cv fs d video_path roi frame_skip gap pc sc = Inr segs"
      using h by (rule conjunct2)
    from analysis_result [OF r]
    obtain final where
      h: "analysis_loop cv roi frame_skip sc pc (py_int (prop_frame_count (fs video_path)))
           (stream (fs video_path)) (initial_analysis d) = Inr final \<and>
         segs = merge_ranges (close_last final) (prop_fps (fs video_path)) gap \<and>
         0 \<le> frame_count final \<and>
         frame_count final \<le> int (length (stream (fs video_path))) \<and>
         (sc = None \<longrightarrow> frame_count final = int (length (stream (fs video_path)))) \<and>
         (\<forall>seg \<in> set segs.
              0 < fst seg \<and> fst seg mod frame_skip = 0 \<and> fst seg \<le> snd seg \<and>
              ((snd seg + 1) mod frame_skip = 0 \<or> snd seg + 1 = frame_count final) \<and>
              snd seg < frame_count final)" ..
    note l = h [THEN conjunct1]
    note g = h [THEN conjunct2, THEN conjunct1]
    note n0 = h [THEN conjunct2, THEN conjunct2, THEN conjunct1]
    note n1 = h [THEN conjunct2, THEN conjunct2, THEN conjunct2, THEN conjunct1]
    note n2 = h [THEN conjunct2, THEN conjunct2, THEN conjunct2, THEN conjunct2, THEN conjunct1]
    note p = h [THEN conjunct2, THEN conjunct2, THEN conjunct2, THEN conjunct2, THEN conjunct2]
    have q: "\<forall>seg \<in> set segs.
            sampled_index frame_skip (fst seg) \<and> fst seg \<le> snd seg \<and>
            snd seg < frame_count final \<and>
            (sampled_index frame_skip (snd seg + 1) \<or> snd seg = frame_count final - 1)"
    proof
      fix seg assume "seg \<in> set segs"
      then have "0 < fst seg \<and> fst seg mod frame_skip = 0 \<and> fst seg \<le> snd seg \<and>
              ((snd seg + 1) mod frame_skip = 0 \<or> snd seg + 1 = frame_count final) \<and>
              snd seg < frame_count final"
        using p by blast
      then show "sampled_index frame_skip (fst seg) \<and> fst seg \<le> snd seg \<and>
            snd seg < frame_count final \<and>
            (sampled_index frame_skip (snd seg + 1) \<or> snd seg = frame_count final - 1)"
        by (auto simp: sampled_index_def)
    qed
    have c: "frame_skip = 1 \<longrightarrow>
         (\<forall>seg \<in> set segs. sampled_index 1 (fst seg) \<and> sampled_index 1 (snd seg))"
    proof (intro impI ballI)
      fix seg assume "frame_skip = 1" and "seg \<in> set segs"
      then have "0 < fst seg \<and> fst seg \<le> snd seg" using p by blast
      then show "sampled_index 1 (fst seg) \<and> sampled_index 1 (snd seg)"
        by (simp add: sampled_index_def)
    qed
    have e: "\<exists>final.
         analysis_loop cv roi frame_skip sc pc (py_int (prop_frame_count (fs video_path)))
           (stream (fs video_path)) (initial_analysis d) = Inr final \<and>
         segs = merge_ranges (close_last final) (prop_fps (fs video_path)) gap \<and>
         0 \<le> frame_count final \<and>
         frame_count final \<le> int (length (stream (fs video_path))) \<and>
         (sc = None \<longrightarrow> frame_count final = int (length (stream (fs video_path)))) \<and>
         (\<forall>seg \<in> set segs.
            sampled_index frame_skip (fst seg) \<and> fst seg \<le> snd seg \<and>
            snd seg < frame_count final \<and>
            (sampled_index frame_skip (snd seg + 1) \<or> snd seg = frame_count final - 1))"
      by (rule exI [of _ final]) (intro conjI l g n0 n1 n2 q)
    show "(\<exists>final.
         analysis_loop cv roi frame_skip sc pc (py_int (prop_frame_count (fs video_path)))
           (stream (fs video_path)) (initial_analysis d) = Inr final \<and>
         segs = merge_ranges (close_last final) (prop_fps (fs video_path)) gap \<and>
         0 \<le> frame_count final \<and>
         frame_count final \<le> int (length (stream (fs video_path))) \<and>
         (sc = None \<longrightarrow> frame_count final = int (length (stream (fs video_path)))) \<and>
         (\<forall>seg \<in> set segs.
            sampled_index frame_skip (fst seg) \<and> fst seg \<le> snd seg \<and>
            snd seg < frame_count final \<and>
            (sampled_index frame_skip (snd seg + 1) \<or> snd seg = frame_count final - 1))) \<and>
      (frame_skip = 1 \<longrightarrow>
         (\<forall>seg \<in> set segs. sampled_index 1 (fst seg) \<and> sampled_index 1 (snd seg)))"
      using e c by (rule conjI)
  qed
  show ?thesis using a b by (rule conjI)
qed

text \<open>
  The example file with \<open>frame_skip = 2\<close> and no stop check: all 5 frames are read,
  frames 0, 2 and 4 are scored, motion is reported at frame 2 and not at frame 4, and
  the segment returned is \<open>(2, 3)\<close>.
\<close>

theorem C2_witness:
  "(1::int) \<le> 2 \<and>
   analyze_video_for_motion demo_cv demo_fs demo_detector ''a.mp4'' (0, 0, 2, 2) 2 0 None None
     = Inr [(2, 3)] \<and>
   int (length (stream (demo_fs ''a.mp4''))) = 5 \<and>
   sampled_index 2 2 \<and> (3::int) < 5 \<and> sampled_index 2 (3 + 1)"
proof -
  have r: "analyze_video_for_motion demo_cv demo_fs demo_detector ''a.mp4'' (0, 0, 2, 2) 2 0
             None None = Inr [(2, 3)]"
    by code_simp
  have k: "(1::int) \<le> 2" by simp
  have len: "int (length (stream (demo_fs ''a.mp4''))) = 5"
    by (simp add: demo_fs_def demo_video_def)
  note t = C2_segment_boundaries [where frame_skip = 2 and cv = demo_cv and fs = demo_fs
        and d = demo_detector and video_path = "''a.mp4''" and roi = "(0, 0, 2, 2)" and gap = 0
        and pc = None and sc = None and segs = "[(2, 3)]",
        THEN conjunct2, THEN mp, OF conjI [OF k r], THEN conjunct1]
  from t obtain final where
    h: "analysis_loop demo_cv (0, 0, 2, 2) 2 None None
           (py_int (prop_frame_count (demo_fs ''a.mp4'')))
           (stream (demo_fs ''a.mp4'')) (initial_analysis demo_detector) = Inr final \<and>
         [(2, 3)] = merge_ranges (close_last final) (prop_fps (demo_fs ''a.mp4'')) 0 \<and>
         0 \<le> frame_count final \<and>
         frame_count final \<le> int (length (stream (demo_fs ''a.mp4''))) \<and>
         ((None :: (int \<Rightarrow> bool) option) = None \<longrightarrow>
            frame_count final = int (length (stream (demo_fs ''a.mp4'')))) \<and>
         (\<forall>seg \<in> set [(2, 3)].
            sampled_index 2 (fst seg) \<and> fst seg \<le> snd seg \<and>
            snd seg < frame_count final \<and>
            (sampled_index 2 (snd seg + 1) \<or> snd seg = frame_count final - 1))" ..
  note n2 = h [THEN conjunct2, THEN conjunct2, THEN conjunct2, THEN conjunct2, THEN conjunct1]
  note q = h [THEN conjunct2, THEN conjunct2, THEN conjunct2, THEN conjunct2, THEN conjunct2]
  have fc: "frame_count final = 5" using n2 len by simp
  have "sampled_index 2 2 \<and> (3::int) < frame_count final" using q by simp
  then have a: "sampled_index 2 2" and b: "(3::int) < 5" using fc by simp_all
  have c: "sampled_index 2 (3 + 1)" by (simp add: sampled_index_def)
  show ?thesis by (intro conjI) (fact k r len a b c)+
qed

text \<open>
  C2 as stated fails on the same run: with \<open>frame_skip = 2\<close> the tracker, active since
  frame 2, sees no motion at the sampled frame 4 and emits \<open>(2, 3)\<close>.  The previous
  sampled index is \<open>4 - 2 = 2\<close>, and the end \<open>3\<close> is not a sampled-frame index.
  The second conjunct is the tracker step alone (lines 218 to 221), whatever the scorer
  computes: active since frame 2, no motion at frame 4, segment \<open>(2, 3)\<close>.
\<close>

theorem C2_counterexample:
  "analyze_video_for_motion demo_cv demo_fs demo_detector ''a.mp4'' (0, 0, 2, 2) 2 0 None None
     = Inr [(2, 3)] \<and>
   motion_ranges (track_sample False
       \<lparr>det = demo_detector, motion_ranges = [], current_motion_start = Some 2,
        frame_count = 4\<rparr>) = [(2, 3)] \<and>
   (3::int) \<noteq> 4 - 2 \<and>
   \<not> sampled_index 2 3"
proof -
  have r: "analyze_video_for_motion demo_cv demo_fs demo_detector ''a.mp4'' (0, 0, 2, 2) 2 0
             None None = Inr [(2, 3)]"
    by code_simp
  then show ?thesis by (simp add: track_sample_def sampled_index_def)
qed

text \<open>
  C5. For a non-degenerate rectangle, if the scorer has no stored reference, or the
  stored reference has other dimensions than the current crop, then scoring stores the
  current crop as the new reference and returns \<open>(False, 0.0)\<close>.  Hence after
  \<open>reset()\<close> the first scored frame never reports motion (whatever the rectangle), and
  every segment of an analysis starts at the second sampled frame, index \<open>frame_skip\<close>,
  at the earliest.
\<close>

theorem C5_reference_seeding:
  "(\<not> roi_degenerate (rows (gray_blur cv frame)) (cols (gray_blur cv frame)) r \<and>
    clamp_roi (rows (gray_blur cv frame)) (cols (gray_blur cv frame)) (normalize_roi r)
      = (x1, y1, x2, y2) \<and>
    (previous_frame d = None \<or>
     (\<exists>prev. previous_frame d = Some prev \<and>
        shape prev \<noteq> shape (crop (gray_blur cv frame) x1 y1 x2 y2))) \<longrightarrow>
      detect_motion cv d frame (Some r) =
        ((False, 0), d\<lparr>previous_frame := Some (crop (gray_blur cv frame) x1 y1 x2 y2)\<rparr>)) \<and>
   previous_frame (reset d) = None \<and>
   fst (detect_motion cv (reset d) frame roi) = (False, 0) \<and>
   (1 \<le> frame_skip \<and>
    analyze_video_for_motion cv fs d video_path r frame_skip gap pc sc = Inr segs \<longrightarrow>
      (\<forall>seg \<in> set segs. frame_skip \<le> fst seg))"
proof -
  have a: "\<not> roi_degenerate (rows (gray_blur cv frame)) (cols (gray_blur cv frame)) r \<and>
    clamp_roi (rows (gray_blur cv frame)) (cols (gray_blur cv frame)) (normalize_roi r)
      = (x1, y1, x2, y2) \<and>
    (previous_frame d = None \<or>
     (\<exists>prev. previous_frame d = Some prev \<and>
        shape prev \<noteq> shape (crop (gray_blur cv frame) x1 y1 x2 y2))) \<longrightarrow>
      detect_motion cv d frame (Some r) =
        ((False, 0), d\<lparr>previous_frame := Some (crop (gray_blur cv frame) x1 y1 x2 y2)\<rparr>)"
  proof
    assume h: "\<not> roi_degenerate (rows (gray_blur cv frame)) (cols (gray_blur cv frame)) r \<and>
      clamp_roi (rows (gray_blur cv frame)) (cols (gray_blur cv frame)) (normalize_roi r)
        = (x1, y1, x2, y2) \<and>
      (previous_frame d = None \<or>
       (\<exists>prev. previous_frame d = Some prev \<and>
          shape prev \<noteq> shape (crop (gray_blur cv frame) x1 y1 x2 y2)))"
    have nd: "\<not> roi_degenerate (rows (gray_blur cv frame)) (cols (gray_blur cv frame)) r"
      using h by (rule conjunct1)
    have cl: "clamp_roi (rows (gray_blur cv frame)) (cols (gray_blur cv frame)) (normalize_roi r)
        = (x1, y1, x2, y2)"
      using h by (elim conjE)
    have pf: "previous_frame d = None \<or>
       (\<exists>prev. previous_frame d = Some prev \<and>
          shape prev \<noteq> shape (crop (gray_blur cv frame) x1 y1 x2 y2))"
      using h by (elim conjE)
    have "detect_motion cv d frame (Some r) =
        score_region cv d (crop (gray_blur cv frame) x1 y1 x2 y2)"
      using nd cl by (rule detect_motion_region)
    also have "\<dots> =
        ((False, 0), d\<lparr>previous_frame := Some (crop (gray_blur cv frame) x1 y1 x2 y2)\<rparr>)"
      using pf by (rule score_region_seed)
    finally show "detect_motion cv d frame (Some r) =
        ((False, 0), d\<lparr>previous_frame := Some (crop (gray_blur cv frame) x1 y1 x2 y2)\<rparr>)" .
  qed
  have b: "previous_frame (reset d) = None" by (simp add: reset_def)
  have c: "fst (detect_motion cv (reset d) frame roi) = (False, 0)"
    by (rule detect_motion_after_reset)
  have e: "1 \<le> frame_skip \<and>
      analyze_video_for_motion cv fs d video_path r frame_skip gap pc sc = Inr segs \<longrightarrow>
      (\<forall>seg \<in> set segs. frame_skip \<le> fst seg)"
  proof (intro impI ballI)
    fix seg
    assume h: "1 \<le> frame_skip \<and>
      analyze_video_for_motion cv fs d video_path r frame_skip gap pc sc = Inr segs"
      and s: "seg \<in> set segs"
    have k: "1 \<le> frame_skip" using h by (rule conjunct1)
    have an: "analyze_video_for_motion cv fs d video_path r frame_skip gap pc sc = Inr segs"
      using h by (rule conjunct2)
    from analysis_segments [OF an]
    obtain n where "\<forall>seg \<in> set segs.
              0 < fst seg \<and> fst seg mod frame_skip = 0 \<and> fst seg \<le> snd seg \<and>
              ((snd seg + 1) mod frame_skip = 0 \<or> snd seg + 1 = n) \<and> snd seg < n"
      by blast
    then have "0 < fst seg" and "fst seg mod frame_skip = 0" using s by blast+
    with k show "frame_skip \<le> fst seg" by (rule positive_multiple)
  qed
  show ?thesis by (rule conjI [OF a conjI [OF b conjI [OF c e]]])
qed

text \<open>
  C5 on two frames that differ, every frame sampled: the first frame seeds the
  reference without reporting motion, the second one reports it, and the segment
  returned starts at index 1.
\<close>

theorem C5_witness:
  "\<not> roi_degenerate (rows (gray_blur demo_cv (flat 0))) (cols (gray_blur demo_cv (flat 0)))
       (0, 0, 2, 2) \<and>
   clamp_roi (rows (gray_blur demo_cv (flat 0))) (cols (gray_blur demo_cv (flat 0)))
       (normalize_roi (0, 0, 2, 2)) = (0, 0, 2, 2) \<and>
   previous_frame demo_detector = None \<and>
   detect_motion demo_cv demo_detector (flat 0) (Some (0, 0, 2, 2)) =
     ((False, 0), demo_detector\<lparr>previous_frame := Some (flat 0)\<rparr>) \<and>
   fst (detect_motion demo_cv (demo_detector\<lparr>previous_frame := Some (flat 0)\<rparr>) (flat 100)
          (Some (0, 0, 2, 2))) = (True, 1) \<and>
   (1::int) \<le> 1 \<and>
   analyze_video_for_motion demo_cv demo_fs demo_detector ''e.mp4'' (0, 0, 2, 2) 1 0 None None
     = Inr [(1, 1)] \<and>
   (1::int) \<le> fst (1::int, 1::int)"
proof -
  have n: "\<not> roi_degenerate (rows (gray_blur demo_cv (flat 0))) (cols (gray_blur demo_cv (flat 0)))
       (0, 0, 2, 2)"
    by (simp add: demo_cv_def demo_gray_def flat_def roi_degenerate_def clamp_roi_def
        normalize_roi_def)
  have c: "clamp_roi (rows (gray_blur demo_cv (flat 0))) (cols (gray_blur demo_cv (flat 0)))
       (normalize_roi (0, 0, 2, 2)) = (0, 0, 2, 2)"
    by (simp add: demo_cv_def demo_gray_def flat_def clamp_roi_def normalize_roi_def)
  have p: "previous_frame demo_detector = None" by (simp add: demo_detector_def)
  have cr: "crop (gray_blur demo_cv (flat 0)) 0 0 2 2 = flat 0"
    by (simp add: demo_cv_def demo_gray_def flat_def crop_def)
  have r: "analyze_video_for_motion demo_cv demo_fs demo_detector ''e.mp4'' (0, 0, 2, 2) 1 0
             None None = Inr [(1, 1)]"
    by code_simp
  have m: "fst (detect_motion demo_cv (demo_detector\<lparr>previous_frame := Some (flat 0)\<rparr>) (flat 100)
          (Some (0, 0, 2, 2))) = (True, 1)"
    by (simp add: demo_cv_def demo_gray_def demo_mask_def demo_contours_def demo_detector_def
        flat_def detect_motion_def normalize_roi_def clamp_roi_def crop_def score_region_def
        shape_def count_nonzero_def Let_def)
  have k: "(1::int) \<le> 1" by simp
  note t = C5_reference_seeding [where cv = demo_cv and frame = "flat 0" and r = "(0, 0, 2, 2)"
      and ?x1.0 = 0 and ?y1.0 = 0 and ?x2.0 = 2 and ?y2.0 = 2 and d = demo_detector
      and frame_skip = 1 and fs = demo_fs and video_path = "''e.mp4''" and gap = 0
      and pc = None and sc = None and segs = "[(1, 1)]"]
  have s: "detect_motion demo_cv demo_detector (flat 0) (Some (0, 0, 2, 2)) =
     ((False, 0), demo_detector\<lparr>previous_frame := Some (flat 0)\<rparr>)"
  proof -
    have "detect_motion demo_cv demo_detector (flat 0) (Some (0, 0, 2, 2)) =
       ((False, 0),
        demo_detector\<lparr>previous_frame := Some (crop (gray_blur demo_cv (flat 0)) 0 0 2 2)\<rparr>)"
      using t n c p by blast
    then show ?thesis by (simp only: cr)
  qed
  have "\<forall>seg \<in> set [(1::int, 1::int)]. 1 \<le> fst seg"
    using t r k by blast
  then have l: "(1::int) \<le> fst (1::int, 1::int)" by simp
  show ?thesis by (intro conjI) (fact n c p s m k r l)+
qed

text \<open>
  C7. If the rectangle is degenerate after normalization and clamping, scoring returns
  \<open>(False, 0.0)\<close> and clears the stored reference; the scorer has no error result.
  Consequently, when the rectangle is degenerate on every frame of a video, the analysis
  finds no segment and returns normally, \<open>process_video\<close> exports no clip, and the
  batch records an empty clip list for the video.
\<close>

theorem C7_degenerate_rectangle:
  "(roi_degenerate (rows (gray_blur cv frame)) (cols (gray_blur cv frame)) r \<longrightarrow>
      detect_motion cv d frame (Some r) = ((False, 0), d\<lparr>previous_frame := None\<rparr>)) \<and>
   ((\<forall>f \<in> set (stream (fs video_path)).
        roi_degenerate (rows (gray_blur cv f)) (cols (gray_blur cv f)) r) \<longrightarrow>
      (\<forall>segs. analyze_video_for_motion cv fs d video_path r k gap pc sc = Inr segs
           \<longrightarrow> segs = []) \<and>
      (is_opened (fs video_path) \<and> k \<noteq> 0 \<longrightarrow>
         analyze_video_for_motion cv fs d video_path r k gap None sc = Inr []) \<and>
      (\<forall>clips. process_video cv fs p video_path r has_callback = Inr clips
           \<longrightarrow> clips = []) \<and>
      (is_opened (fs video_path) \<and> py_int (prop_frame_count (fs video_path)) \<noteq> 0 \<longrightarrow>
         process_video cv fs p video_path r has_callback = Inr []) \<and>
      (\<not> stop_requested p \<and> video_path \<in> set video_files \<longrightarrow>
         process_all_videos cv fs p r video_files video_path = Some []))"
proof -
  have a: "roi_degenerate (rows (gray_blur cv frame)) (cols (gray_blur cv frame)) r \<longrightarrow>
      detect_motion cv d frame (Some r) = ((False, 0), d\<lparr>previous_frame := None\<rparr>)"
    using detect_motion_degenerate [of cv frame r d] by (rule impI)
  {
    assume dg: "\<forall>f \<in> set (stream (fs video_path)).
        roi_degenerate (rows (gray_blur cv f)) (cols (gray_blur cv f)) r"
    have s1: "\<forall>segs. analyze_video_for_motion cv fs d video_path r k gap pc sc = Inr segs
           \<longrightarrow> segs = []"
      using analysis_degenerate [where fs = fs and video_path = video_path, OF dg] by blast
    have s2: "is_opened (fs video_path) \<and> k \<noteq> 0 \<longrightarrow>
         analyze_video_for_motion cv fs d video_path r k gap None sc = Inr []"
    proof
      assume h: "is_opened (fs video_path) \<and> k \<noteq> 0"
      have "\<forall>cb n. (None :: (int \<Rightarrow> int \<Rightarrow> error option) option) = Some cb \<longrightarrow>
          cb n (py_int (prop_frame_count (fs video_path))) = None"
        by simp
      then obtain segs where
        r: "analyze_video_for_motion cv fs d video_path r k gap None sc = Inr segs"
        using analysis_returns [where fs = fs and video_path = video_path and k = k
            and pc = None and cv = cv and d = d and roi = r and gap = gap and sc = sc] h
        by blast
      then have "segs = []" using analysis_degenerate [where fs = fs and video_path = video_path, OF dg] by blast
      then show "analyze_video_for_motion cv fs d video_path r k gap None sc = Inr []"
        using r by simp
    qed
    have s3: "\<forall>clips. process_video cv fs p video_path r has_callback = Inr clips
           \<longrightarrow> clips = []"
      using process_video_degenerate [where fs = fs and video_path = video_path, OF dg] by blast
    have s4: "is_opened (fs video_path) \<and> py_int (prop_frame_count (fs video_path)) \<noteq> 0 \<longrightarrow>
         process_video cv fs p video_path r has_callback = Inr []"
      using process_video_returns_degenerate [where fs = fs and video_path = video_path, OF dg] by blast
    have s5: "\<not> stop_requested p \<and> video_path \<in> set video_files \<longrightarrow>
         process_all_videos cv fs p r video_files video_path = Some []"
    proof
      assume h: "\<not> stop_requested p \<and> video_path \<in> set video_files"
      have "(case process_video cv fs p video_path r True of
               Inr clips \<Rightarrow> clips | Inl e \<Rightarrow> []) = []"
        using process_video_degenerate [where fs = fs and video_path = video_path
            and p = p and has_callback = True, OF dg]
        by (cases "process_video cv fs p video_path r True") simp_all
      then show "process_all_videos cv fs p r video_files video_path = Some []"
        using h by (simp add: process_all_videos_lookup)
    qed
    note s1 s2 s3 s4 s5
  }
  then show ?thesis using a by blast
qed

text \<open>
  C7 on the example file with the rectangle \<open>(5, 5, 5, 9)\<close>, which has no width: the
  scorer reports no motion, and no segment and no clip result.
\<close>

theorem C7_witness:
  "roi_degenerate (rows (gray_blur demo_cv (flat 100))) (cols (gray_blur demo_cv (flat 100)))
     (5, 5, 5, 9) \<and>
   detect_motion demo_cv (demo_detector\<lparr>previous_frame := Some (flat 0)\<rparr>) (flat 100)
     (Some (5, 5, 5, 9)) = ((False, 0), demo_detector\<lparr>previous_frame := None\<rparr>) \<and>
   is_opened (demo_fs ''a.mp4'') \<and> py_int (prop_frame_count (demo_fs ''a.mp4'')) \<noteq> 0 \<and>
   analyze_video_for_motion demo_cv demo_fs demo_detector ''a.mp4'' (5, 5, 5, 9) 2 0 None None
     = Inr [] \<and>
   process_video demo_cv demo_fs demo_processor ''a.mp4'' (5, 5, 5, 9) True = Inr [] \<and>
   process_all_videos demo_cv demo_fs demo_processor (5, 5, 5, 9) [''a.mp4''] ''a.mp4'' = Some []"
proof -
  have dg1: "roi_degenerate (rows (gray_blur demo_cv (flat 100)))
     (cols (gray_blur demo_cv (flat 100))) (5, 5, 5, 9)"
    by (simp add: roi_degenerate_def clamp_roi_def normalize_roi_def)
  have dg: "\<forall>f \<in> set (stream (demo_fs ''a.mp4'')).
      roi_degenerate (rows (gray_blur demo_cv f)) (cols (gray_blur demo_cv f)) (5, 5, 5, 9)"
    by (simp add: roi_degenerate_def clamp_roi_def normalize_roi_def)
  have o: "is_opened (demo_fs ''a.mp4'')" by (simp add: demo_fs_def demo_video_def)
  have t: "py_int (prop_frame_count (demo_fs ''a.mp4'')) \<noteq> 0"
    by (simp add: demo_fs_def demo_video_def py_int_def)
  have k: "(2::int) \<noteq> 0" by simp
  have ns: "\<not> stop_requested demo_processor" by (simp add: demo_processor_def)
  have m: "''a.mp4'' \<in> set [''a.mp4'']" by simp
  note c = C7_degenerate_rectangle [where cv = demo_cv and frame = "flat 100" and r = "(5, 5, 5, 9)"
      and d = "demo_detector\<lparr>previous_frame := Some (flat 0)\<rparr>" and fs = demo_fs
      and video_path = "''a.mp4''" and k = 2 and gap = 0 and pc = None and sc = None
      and p = demo_processor and has_callback = True and video_files = "[''a.mp4'']"]
  have d1: "detect_motion demo_cv (demo_detector\<lparr>previous_frame := Some (flat 0)\<rparr>) (flat 100)
     (Some (5, 5, 5, 9)) =
       ((False, 0), demo_detector\<lparr>previous_frame := Some (flat 0), previous_frame := None\<rparr>)"
    using c dg1 by blast
  have d2: "detect_motion demo_cv (demo_detector\<lparr>previous_frame := Some (flat 0)\<rparr>) (flat 100)
     (Some (5, 5, 5, 9)) = ((False, 0), demo_detector\<lparr>previous_frame := None\<rparr>)"
    using d1 by simp
  have a2: "analyze_video_for_motion demo_cv demo_fs demo_detector ''a.mp4'' (5, 5, 5, 9) 2 0
      None None = Inr []"
    using C7_degenerate_rectangle [where cv = demo_cv and r = "(5, 5, 5, 9)"
      and d = demo_detector and fs = demo_fs and video_path = "''a.mp4''" and k = 2 and gap = 0
      and sc = None] dg o k
    by blast
  have p1: "process_video demo_cv demo_fs demo_processor ''a.mp4'' (5, 5, 5, 9) True = Inr []"
    using c dg o t by blast
  have p2: "process_all_videos demo_cv demo_fs demo_processor (5, 5, 5, 9) [''a.mp4''] ''a.mp4''
      = Some []"
    using c dg ns m by blast
  show ?thesis by (intro conjI) (fact dg1 d2 o t a2 p1 p2)+
qed

text \<open>
  C9. In a batch that is not stopped, every video of the batch gets an entry in the
  result.  An exception raised while one video is processed, in particular the
  \<open>ValueError\<close> of a source that cannot be opened, is caught: the video is recorded with
  an empty clip list, and the entries of all other videos are what processing them
  alone gives.  The batch itself has no error result.
\<close>

theorem C9_batch_survives_failures:
  "\<not> stop_requested p \<longrightarrow>
     dom (process_all_videos cv fs p roi video_files) = set video_files \<and>
     (\<forall>video_path \<in> set video_files.
        (\<forall>e. process_video cv fs p video_path roi True = Inl e \<longrightarrow>
             process_all_videos cv fs p roi video_files video_path = Some []) \<and>
        (\<forall>clips. process_video cv fs p video_path roi True = Inr clips \<longrightarrow>
             process_all_videos cv fs p roi video_files video_path = Some clips) \<and>
        (\<not> is_opened (fs video_path) \<longrightarrow>
             process_video cv fs p video_path roi True =
               Inl (ValueError (''Could not open video: '' @ video_path)) \<and>
             process_all_videos cv fs p roi video_files video_path = Some []))"
proof
  assume ns: "\<not> stop_requested p"
  have lk: "\<And>video_path. process_all_videos cv fs p roi video_files video_path =
     (if video_path \<in> set video_files
      then Some (case process_video cv fs p video_path roi True of
                   Inr clips \<Rightarrow> clips | Inl e \<Rightarrow> [])
      else None)"
    using ns by (rule process_all_videos_lookup)
  have d: "dom (process_all_videos cv fs p roi video_files) = set video_files"
    by (auto simp: lk dom_def)
  have each: "\<forall>video_path \<in> set video_files.
        (\<forall>e. process_video cv fs p video_path roi True = Inl e \<longrightarrow>
             process_all_videos cv fs p roi video_files video_path = Some []) \<and>
        (\<forall>clips. process_video cv fs p video_path roi True = Inr clips \<longrightarrow>
             process_all_videos cv fs p roi video_files video_path = Some clips) \<and>
        (\<not> is_opened (fs video_path) \<longrightarrow>
             process_video cv fs p video_path roi True =
               Inl (ValueError (''Could not open video: '' @ video_path)) \<and>
             process_all_videos cv fs p roi video_files video_path = Some [])"
  proof
    fix video_path assume m: "video_path \<in> set video_files"
    have l: "process_all_videos cv fs p roi video_files video_path =
        Some (case process_video cv fs p video_path roi True of
                   Inr clips \<Rightarrow> clips | Inl e \<Rightarrow> [])"
      using m by (simp add: lk)
    have u: "\<not> is_opened (fs video_path) \<longrightarrow>
        process_video cv fs p video_path roi True =
               Inl (ValueError (''Could not open video: '' @ video_path))"
      using ns by (simp add: process_video_unopened)
    show "(\<forall>e. process_video cv fs p video_path roi True = Inl e \<longrightarrow>
             process_all_videos cv fs p roi video_files video_path = Some []) \<and>
        (\<forall>clips. process_video cv fs p video_path roi True = Inr clips \<longrightarrow>
             process_all_videos cv fs p roi video_files video_path = Some clips) \<and>
        (\<not> is_opened (fs video_path) \<longrightarrow>
             process_video cv fs p video_path roi True =
               Inl (ValueError (''Could not open video: '' @ video_path)) \<and>
             process_all_videos cv fs p roi video_files video_path = Some [])"
      using l u by simp
  qed
  show "dom (process_all_videos cv fs p roi video_files) = set video_files \<and>
     (\<forall>video_path \<in> set video_files.
        (\<forall>e. process_video cv fs p video_path roi True = Inl e \<longrightarrow>
             process_all_videos cv fs p roi video_files video_path = Some []) \<and>
        (\<forall>clips. process_video cv fs p video_path roi True = Inr clips \<longrightarrow>
             process_all_videos cv fs p roi video_files video_path = Some clips) \<and>
        (\<not> is_opened (fs video_path) \<longrightarrow>
             process_video cv fs p video_path roi True =
               Inl (ValueError (''Could not open video: '' @ video_path)) \<and>
             process_all_videos cv fs p roi video_files video_path = Some []))"
    using d each by (rule conjI)
qed

text \<open>
  C9 on the batch \<open>b.mp4\<close>, \<open>a.mp4\<close>, where \<open>b.mp4\<close> cannot be opened: \<open>b.mp4\<close> is
  recorded with no clip and \<open>a.mp4\<close>, processed after it, with its one clip.
\<close>

theorem C9_witness:
  "\<not> stop_requested demo_processor \<and>
   ''b.mp4'' \<in> set [''b.mp4'', ''a.mp4''] \<and> \<not> is_opened (demo_fs ''b.mp4'') \<and>
   process_video demo_cv demo_fs demo_processor ''b.mp4'' (0, 0, 2, 2) True =
     Inl (ValueError ''Could not open video: b.mp4'') \<and>
   process_all_videos demo_cv demo_fs demo_processor (0, 0, 2, 2) [''b.mp4'', ''a.mp4''] ''b.mp4''
     = Some [] \<and>
   process_all_videos demo_cv demo_fs demo_processor (0, 0, 2, 2) [''b.mp4'', ''a.mp4''] ''a.mp4''
     = Some [\<lparr>clip_start = 0, clip_end = 7, clip_fps = 10, clip_size = (2, 2),
              clip_frames = [flat 0, flat 0, flat 100, flat 100, flat 100]\<rparr>] \<and>
   dom (process_all_videos demo_cv demo_fs demo_processor (0, 0, 2, 2) [''b.mp4'', ''a.mp4''])
     = {''a.mp4'', ''b.mp4''}"
proof -
  have ns: "\<not> stop_requested demo_processor" by (simp add: demo_processor_def)
  have mb: "''b.mp4'' \<in> set [''b.mp4'', ''a.mp4'']" by simp
  have ma: "''a.mp4'' \<in> set [''b.mp4'', ''a.mp4'']" by simp
  have ub: "\<not> is_opened (demo_fs ''b.mp4'')" by (simp add: demo_fs_def unopened_video_def)
  have pa: "process_video demo_cv demo_fs demo_processor ''a.mp4'' (0, 0, 2, 2) True =
      Inr [\<lparr>clip_start = 0, clip_end = 7, clip_fps = 10, clip_size = (2, 2),
              clip_frames = [flat 0, flat 0, flat 100, flat 100, flat 100]\<rparr>]"
    by (simp add: demo_gray_def demo_mask_def demo_contours_def demo_mul_def demo_cv_def flat_def demo_video_def
        demo_fs_def demo_detector_def demo_processor_def process_video_def FRAME_SKIP_def
        analysis_progress_def analyze_video_for_motion_def initial_analysis_def reset_def
        sample_frame_def detect_motion_def normalize_roi_def clamp_roi_def crop_def
        score_region_def shape_def track_sample_def count_nonzero_def close_last_def
        merge_ranges_def py_int_def export_clip_def actual_start_def actual_end_def seek_def
        Let_def)
  note c = C9_batch_survives_failures [where p = demo_processor and cv = demo_cv
      and fs = demo_fs and roi = "(0, 0, 2, 2)" and video_files = "[''b.mp4'', ''a.mp4'']"]
  have pb: "process_video demo_cv demo_fs demo_processor ''b.mp4'' (0, 0, 2, 2) True =
     Inl (ValueError (''Could not open video: '' @ ''b.mp4''))"
    using c ns mb ub by blast
  have rb: "process_all_videos demo_cv demo_fs demo_processor (0, 0, 2, 2)
      [''b.mp4'', ''a.mp4''] ''b.mp4'' = Some []"
    using c ns mb ub by blast
  have ra: "process_all_videos demo_cv demo_fs demo_processor (0, 0, 2, 2)
      [''b.mp4'', ''a.mp4''] ''a.mp4''
     = Some [\<lparr>clip_start = 0, clip_end = 7, clip_fps = 10, clip_size = (2, 2),
              clip_frames = [flat 0, flat 0, flat 100, flat 100, flat 100]\<rparr>]"
    using c ns ma pa by blast
  have dm: "dom (process_all_videos demo_cv demo_fs demo_processor (0, 0, 2, 2)
      [''b.mp4'', ''a.mp4'']) = set [''b.mp4'', ''a.mp4'']"
    using c ns by blast
  show ?thesis using ns mb ub pb rb ra dm by auto
qed

end
